theory Spec2Isabelle
  imports Complex_Main "HOL-Library.Word" "HOL-Library.Log_Nat"
begin

section \<open>Tenant statistics (package multitenant)\<close>

text \<open>
  The package keeps one global \<open>multitenantStat\<close>. Its maps are nested Go maps; a Go map
  is modelled as a partial function, and a missing (or nil) inner map as \<open>None\<close>.
  Go's \<open>int\<close> is the 64-bit machine integer, so the job counters are \<open>64 word\<close> and
  \<open>+=\<close> wraps. A \<open>misc.MovingAverage\<close> is only ever read through \<open>Value()\<close>, so an
  entry of \<open>RouterInputRates\<close> is modelled by that value, a \<open>real\<close>, and a
  \<open>time.Time\<close> is the number of nanoseconds since the zero time \<open>time.Time{}\<close>.
\<close>

type_synonym goint = "64 word"

record MultitenantStatsT =
  RouterInMemoryJobCounts :: "string \<rightharpoonup> (string \<rightharpoonup> (string \<rightharpoonup> goint))"
  RouterInputRates :: "string \<rightharpoonup> (string \<rightharpoonup> (string \<rightharpoonup> real))"
  lastDrainedTimestamps :: "string \<rightharpoonup> (string \<rightharpoonup> int)"

text \<open>\<open>Init\<close>: the two table types get an empty map each, nothing else is registered.\<close>

definition Init :: MultitenantStatsT where
  "Init = \<lparr> RouterInMemoryJobCounts = [''router'' \<mapsto> Map.empty, ''batch_router'' \<mapsto> Map.empty],
            RouterInputRates = [''router'' \<mapsto> Map.empty, ''batch_router'' \<mapsto> Map.empty],
            lastDrainedTimestamps = Map.empty \<rparr>"

text \<open>
  Reading \<open>m[tableType][customerID][destinationType]\<close>: a read through a missing key or a
  nil map gives the zero value.
\<close>

definition jobCount :: "MultitenantStatsT \<Rightarrow> string \<Rightarrow> string \<Rightarrow> string \<Rightarrow> goint" where
  "jobCount st tableType customerID destinationType =
     (case RouterInMemoryJobCounts st tableType of
        None \<Rightarrow> 0
      | Some tbl \<Rightarrow> (case tbl customerID of
          None \<Rightarrow> 0
        | Some dests \<Rightarrow> (case dests destinationType of None \<Rightarrow> 0 | Some c \<Rightarrow> c)))"

text \<open>
  The body shared by \<open>AddToInMemoryCount\<close> and \<open>RemoveFromInMemoryCount\<close>: when the
  customer has no map yet, one is stored under \<open>[tableType][customerID]\<close>; that store
  panics (assignment to entry in nil map) when \<open>[tableType]\<close> itself is missing, and
  the panic is the result \<open>None\<close>. Then the counter is read (zero when absent),
  \<open>delta\<close> is added and the sum is stored.
\<close>

definition bumpInMemoryCount ::
  "string \<Rightarrow> string \<Rightarrow> goint \<Rightarrow> string \<Rightarrow> MultitenantStatsT \<Rightarrow> MultitenantStatsT option" where
  "bumpInMemoryCount customerID destinationType delta tableType st =
     (case RouterInMemoryJobCounts st tableType of
        None \<Rightarrow> None
      | Some tbl \<Rightarrow>
          let dests = (case tbl customerID of None \<Rightarrow> Map.empty | Some d \<Rightarrow> d);
              old = (case dests destinationType of None \<Rightarrow> 0 | Some c \<Rightarrow> c);
              tbl' = tbl(customerID \<mapsto> dests(destinationType \<mapsto> old + delta))
          in Some (st\<lparr>RouterInMemoryJobCounts := (RouterInMemoryJobCounts st)(tableType \<mapsto> tbl')\<rparr>))"

definition AddToInMemoryCount ::
  "string \<Rightarrow> string \<Rightarrow> goint \<Rightarrow> string \<Rightarrow> MultitenantStatsT \<Rightarrow> MultitenantStatsT option" where
  "AddToInMemoryCount customerID destinationType count tableType st =
     bumpInMemoryCount customerID destinationType count tableType st"

definition RemoveFromInMemoryCount ::
  "string \<Rightarrow> string \<Rightarrow> goint \<Rightarrow> string \<Rightarrow> MultitenantStatsT \<Rightarrow> MultitenantStatsT option" where
  "RemoveFromInMemoryCount customerID destinationType count tableType st =
     bumpInMemoryCount customerID destinationType (- 1 * count) tableType st"


section \<open>Dispatch planner (\<open>GetRouterPickupJobs\<close>)\<close>

text \<open>
  A \<open>time.Duration\<close> is a count of nanoseconds (an \<open>int64\<close>). The planner's own
  \<open>int\<close> and \<open>float64\<close> arithmetic is modelled on \<open>int\<close> and \<open>real\<close>: the pickup
  counts stay far inside the 64-bit range, and the exact arithmetic stands for the
  floating-point one, but for the boosted timeout, where the rounding of \<open>float64\<close> is
  written out. \<open>int(x)\<close> on a float truncates towards zero.
\<close>

definition second :: int where
  "second = 1000000000"

definition maxDuration :: int where
  "maxDuration = 2 ^ 63 - 1"

definition minDuration :: int where
  "minDuration = - (2 ^ 63)"

definition wrap64 :: "int \<Rightarrow> int" where
  "wrap64 x = (x + 2 ^ 63) mod 2 ^ 64 - 2 ^ 63"

definition truncF :: "real \<Rightarrow> int" where
  "truncF x = (if 0 \<le> x then \<lfloor>x\<rfloor> else \<lceil>x\<rceil>)"

text \<open>
  Modelled from the spec: \<open>misc.MinInt\<close> and \<open>misc.MaxInt\<close> are helpers of the
  repository that are not among the sources; the spec writes them \<open>min\<close> and \<open>max\<close>.
\<close>

definition MinInt :: "int \<Rightarrow> int \<Rightarrow> int" where
  "MinInt a b = (if a < b then a else b)"

definition MaxInt :: "int \<Rightarrow> int \<Rightarrow> int" where
  "MaxInt a b = (if a > b then a else b)"

text \<open>
  \<open>time.Since(t)\<close> is \<open>time.Now().Sub(t)\<close>, and \<open>Sub\<close> saturates at the largest and
  smallest duration. The clock reading \<open>now\<close> is an input of the model, one reading for
  the whole call.
\<close>

definition timeSince :: "int \<Rightarrow> int \<Rightarrow> int" where
  "timeSince now t = (if now - t > maxDuration then maxDuration
                      else if now - t < minDuration then minDuration else now - t)"

definition getLastDrainedTimestamp :: "MultitenantStatsT \<Rightarrow> string \<Rightarrow> string \<Rightarrow> int" where
  "getLastDrainedTimestamp st customerKey destType =
     (case lastDrainedTimestamps st customerKey of
        None \<Rightarrow> 0
      | Some destWiseMap \<Rightarrow> (case destWiseMap destType of None \<Rightarrow> 0 | Some lastDrainedTS \<Rightarrow> lastDrainedTS))"

text \<open>The test of the first loop: \<open>time.Since(lastDrainedTS) < 10*routerTimeOut\<close>.\<close>

definition deprioritised :: "MultitenantStatsT \<Rightarrow> int \<Rightarrow> string \<Rightarrow> int \<Rightarrow> string \<Rightarrow> bool" where
  "deprioritised st now destType routerTimeOut customerKey \<longleftrightarrow>
     timeSince now (getLastDrainedTimestamp st customerKey destType) < wrap64 (10 * routerTimeOut)"

text \<open>
  The first loop appends each tenant to \<open>finalList\<close> or to \<open>deprioristiedList\<close>; the
  second copies the deprioritised ones behind the others and sets their indicator. The
  result pairs every entry of \<open>finalList\<close> with its \<open>depriorityIndicator\<close>.
\<close>

fun splitLists :: "(string \<Rightarrow> bool) \<Rightarrow> string list \<Rightarrow> string list \<times> string list \<Rightarrow> string list \<times> string list" where
  "splitLists depri [] acc = acc"
| "splitLists depri (customerKey # rest) (finalList, deprioristiedList) =
     (if depri customerKey
      then splitLists depri rest (finalList, deprioristiedList @ [customerKey])
      else splitLists depri rest (finalList @ [customerKey], deprioristiedList))"

definition finalListWithIndicator :: "(string \<Rightarrow> bool) \<Rightarrow> string list \<Rightarrow> (string \<times> bool) list" where
  "finalListWithIndicator depri sortedLatencyList =
     (case splitLists depri sortedLatencyList ([], []) of
        (finalList, deprioristiedList) \<Rightarrow>
          zip (finalList @ deprioristiedList)
              (replicate (length finalList) False @ replicate (length deprioristiedList) True))"

text \<open>
  The value of a real number as a \<open>float64\<close>: the nearest number with a 53-bit mantissa,
  a tie going to the even mantissa. \<open>binaryExponent x\<close> is the \<open>e\<close> with
  \<open>2^e \<le> x < 2^(e+1)\<close>, for a positive \<open>x\<close>. Overflow to infinity and the
  subnormal numbers are left out: no duration comes near them.
\<close>

definition roundHalfEven :: "real \<Rightarrow> int" where
  "roundHalfEven x =
     (let f = \<lfloor>x\<rfloor>
      in if x - of_int f < 1 / 2 then f
         else if 1 / 2 < x - of_int f then f + 1
         else if even f then f else f + 1)"

definition binaryExponent :: "real \<Rightarrow> int" where
  "binaryExponent x = (if 1 \<le> x then bitlen \<lfloor>x\<rfloor> - 1 else - bitlen (\<lceil>1 / x\<rceil> - 1))"

definition pow2 :: "int \<Rightarrow> real" where
  "pow2 e = (if 0 \<le> e then 2 ^ nat e else 1 / 2 ^ nat (- e))"

definition float64 :: "real \<Rightarrow> real" where
  "float64 x =
     (if x = 0 then 0
      else let ulp = pow2 (binaryExponent \<bar>x\<bar> - 52)
           in sgn x * of_int (roundHalfEven (\<bar>x\<bar> / ulp)) * ulp)"

text \<open>
  \<open>time.Duration(1.3 * float64(routerTimeOut))\<close>: the duration becomes a \<open>float64\<close>,
  the constant 1.3 is the \<open>float64\<close> nearest to it, the product is rounded, and the
  conversion to a duration truncates.
\<close>

definition boostedRouterTimeOut :: "int \<Rightarrow> int" where
  "boostedRouterTimeOut routerTimeOut =
     truncF (float64 (float64 (13 / 10) * float64 (real_of_int routerTimeOut)))"

definition timeGiven :: "int \<Rightarrow> bool \<Rightarrow> int" where
  "timeGiven routerTimeOut depri = (if depri then routerTimeOut else boostedRouterTimeOut routerTimeOut)"

record pickState =
  customerPickUpCount :: "string \<rightharpoonup> int"
  runningJobCount :: int
  runningTimeCounter :: real

text \<open>Reading a Go map of ints: zero for a missing key.\<close>

definition pickedCount :: "(string \<rightharpoonup> int) \<Rightarrow> string \<Rightarrow> int" where
  "pickedCount m k = (case m k of None \<Rightarrow> 0 | Some n \<Rightarrow> n)"

definition pendingCount :: "MultitenantStatsT \<Rightarrow> string \<Rightarrow> string \<Rightarrow> int" where
  "pendingCount st customerKey destType = sint (jobCount st ''router'' customerKey destType)"

definition inRate :: "MultitenantStatsT \<Rightarrow> string \<Rightarrow> string \<Rightarrow> real option" where
  "inRate st customerKey destType =
     (case RouterInputRates st ''router'' of
        None \<Rightarrow> None
      | Some rates \<Rightarrow> (case rates customerKey of
          None \<Rightarrow> None
        | Some customerCountKey \<Rightarrow> customerCountKey destType))"

text \<open>
  The body of the in-rate loop once the budget check has passed. \<open>latencyMap\<close> maps a
  tenant to the value of its moving average; \<open>latencyMap[customerKey].Value()\<close> on a
  missing tenant calls a method of a nil interface and panics: the result \<open>None\<close>.
\<close>

definition inRatePick ::
  "MultitenantStatsT \<Rightarrow> string \<Rightarrow> (string \<rightharpoonup> real) \<Rightarrow> int \<Rightarrow> string \<Rightarrow> real \<Rightarrow> pickState \<Rightarrow> pickState option" where
  "inRatePick st destType latencyMap tGiven customerKey destTypeCount s =
     (case latencyMap customerKey of
        None \<Rightarrow> None
      | Some latency \<Rightarrow>
          let pending = pendingCount st customerKey destType;
              byRate = destTypeCount * real_of_int tGiven / real_of_int second;
              tmpPickCount = truncF (min byRate (runningTimeCounter s / latency));
              unReliableLatencyORInRate = (latency \<noteq> 0 \<and> tmpPickCount < 1);
              pick = (if latency \<noteq> 0
                      then (let tmp = (if tmpPickCount < 1 then 1 else tmpPickCount)
                            in if tmp > pending then MaxInt pending 0 else tmp)
                      else MinInt (truncF byRate) pending);
              timeRequired = (if unReliableLatencyORInRate then 0 else real_of_int pick * latency)
          in Some \<lparr> customerPickUpCount =
                       (if pick = 0 then (customerPickUpCount s)(customerKey := None)
                        else (customerPickUpCount s)(customerKey \<mapsto> pick)),
                     runningJobCount = runningJobCount s - pick,
                     runningTimeCounter = runningTimeCounter s - timeRequired \<rparr>)"

text \<open>
  One iteration of the in-rate loop: tenants without an input rate for \<open>destType\<close> are
  passed over; with the budget used up, a tenant with pending jobs is given 1.
\<close>

definition inRateStep ::
  "MultitenantStatsT \<Rightarrow> string \<Rightarrow> (string \<rightharpoonup> real) \<Rightarrow> int \<Rightarrow> string \<times> bool \<Rightarrow> pickState \<Rightarrow> pickState option" where
  "inRateStep st destType latencyMap routerTimeOut entry s =
     (case inRate st (fst entry) destType of
        None \<Rightarrow> Some s
      | Some destTypeCount \<Rightarrow>
          if runningJobCount s \<le> 0 \<or> runningTimeCounter s \<le> 0
          then (if pendingCount st (fst entry) destType > 0
                then Some (s\<lparr>customerPickUpCount := (customerPickUpCount s)(fst entry \<mapsto> 1)\<rparr>)
                else Some s)
          else inRatePick st destType latencyMap (timeGiven routerTimeOut (snd entry))
                 (fst entry) destTypeCount s)"

fun inRatePass ::
  "MultitenantStatsT \<Rightarrow> string \<Rightarrow> (string \<rightharpoonup> real) \<Rightarrow> int \<Rightarrow> (string \<times> bool) list \<Rightarrow> pickState \<Rightarrow> pickState option" where
  "inRatePass st destType latencyMap routerTimeOut [] s = Some s"
| "inRatePass st destType latencyMap routerTimeOut (entry # rest) s =
     (case inRateStep st destType latencyMap routerTimeOut entry s of
        None \<Rightarrow> None
      | Some s' \<Rightarrow> inRatePass st destType latencyMap routerTimeOut rest s')"

text \<open>
  The body of the pile-up loop. The jobs already picked are read from
  \<open>customerPickUpCount[destType]\<close>, as the source does.
\<close>

definition pileUpPick :: "string \<Rightarrow> string \<Rightarrow> int \<Rightarrow> real \<Rightarrow> pickState \<Rightarrow> pickState" where
  "pileUpPick destType customerKey pending latency s =
     (let timeRequired = latency * real_of_int pending;
          alreadyPicked = pickedCount (customerPickUpCount s) destType;
          pickUpCount =
            (if timeRequired < runningTimeCounter s
             then MinInt (pending - alreadyPicked) (runningJobCount s)
             else MinInt (MinInt (truncF (runningTimeCounter s / latency)) (runningJobCount s))
                         (pending - alreadyPicked))
      in \<lparr> customerPickUpCount =
             (customerPickUpCount s)(customerKey \<mapsto> pickedCount (customerPickUpCount s) customerKey + pickUpCount),
           runningJobCount = runningJobCount s - pickUpCount,
           runningTimeCounter = runningTimeCounter s - real_of_int pickUpCount * latency \<rparr>)"

fun pileUpPass ::
  "MultitenantStatsT \<Rightarrow> string \<Rightarrow> (string \<rightharpoonup> real) \<Rightarrow> string list \<Rightarrow> pickState \<Rightarrow> pickState option" where
  "pileUpPass st destType latencyMap [] s = Some s"
| "pileUpPass st destType latencyMap (customerKey # rest) s =
     (case (case RouterInMemoryJobCounts st ''router'' of None \<Rightarrow> None | Some tbl \<Rightarrow> tbl customerKey) of
        None \<Rightarrow> pileUpPass st destType latencyMap rest s
      | Some customerCountKey \<Rightarrow>
          if pendingCount st customerKey destType = 0
          then pileUpPass st destType latencyMap rest s
          else if runningJobCount s \<le> 0 \<or> runningTimeCounter s \<le> 0
          then Some s
          else (case latencyMap customerKey of
                  None \<Rightarrow> None
                | Some latency \<Rightarrow>
                    pileUpPass st destType latencyMap rest
                      (pileUpPick destType customerKey (pendingCount st customerKey destType) latency s)))"

text \<open>
  The whole planner. \<open>earliestJobMap\<close>, \<open>successRateMap\<close> and \<open>drainedMap\<close> are not read
  by the source and are left out.
\<close>

definition initialState :: "int \<Rightarrow> int \<Rightarrow> int \<Rightarrow> pickState" where
  "initialState noOfWorkers routerTimeOut jobQueryBatchSize =
     \<lparr> customerPickUpCount = Map.empty,
       runningJobCount = jobQueryBatchSize,
       runningTimeCounter =
         real_of_int noOfWorkers * real_of_int (boostedRouterTimeOut routerTimeOut) / real_of_int second \<rparr>"

definition GetRouterPickupJobs ::
  "MultitenantStatsT \<Rightarrow> int \<Rightarrow> string \<Rightarrow> string list \<Rightarrow> int \<Rightarrow> int \<Rightarrow> (string \<rightharpoonup> real) \<Rightarrow> int
     \<Rightarrow> (string \<rightharpoonup> int) option" where
  "GetRouterPickupJobs st now destType sortedLatencyList noOfWorkers routerTimeOut latencyMap jobQueryBatchSize =
     (let final = finalListWithIndicator (deprioritised st now destType routerTimeOut) sortedLatencyList
      in case inRatePass st destType latencyMap routerTimeOut final
                (initialState noOfWorkers routerTimeOut jobQueryBatchSize) of
           None \<Rightarrow> None
         | Some s1 \<Rightarrow> (case pileUpPass st destType latencyMap (map fst final) s1 of
             None \<Rightarrow> None
           | Some s2 \<Rightarrow> Some (customerPickUpCount s2)))"


subsection \<open>Accounting over a run of the planner\<close>

text \<open>
  The sum of the pickup counts of a map, over its keys. An iteration of the in-rate loop
  takes the reserve when it finds the budget used up and credits the tenant 1;
  \<open>reserveCredits\<close> counts these iterations along the loop.
\<close>

definition pickupSum :: "(string \<rightharpoonup> int) \<Rightarrow> int" where
  "pickupSum m = (\<Sum>k\<in>dom m. pickedCount m k)"

definition takesReserve :: "MultitenantStatsT \<Rightarrow> string \<Rightarrow> string \<times> bool \<Rightarrow> pickState \<Rightarrow> bool" where
  "takesReserve st destType entry s \<longleftrightarrow>
     inRate st (fst entry) destType \<noteq> None
     \<and> (runningJobCount s \<le> 0 \<or> runningTimeCounter s \<le> 0)
     \<and> 0 < pendingCount st (fst entry) destType"

fun reserveCredits ::
  "MultitenantStatsT \<Rightarrow> string \<Rightarrow> (string \<rightharpoonup> real) \<Rightarrow> int \<Rightarrow> (string \<times> bool) list \<Rightarrow> pickState \<Rightarrow> int" where
  "reserveCredits st destType latencyMap routerTimeOut [] s = 0"
| "reserveCredits st destType latencyMap routerTimeOut (entry # rest) s =
     (case inRateStep st destType latencyMap routerTimeOut entry s of
        None \<Rightarrow> 0
      | Some s' \<Rightarrow> (if takesReserve st destType entry s then 1 else 0)
                   + reserveCredits st destType latencyMap routerTimeOut rest s')"

section \<open>Sample inputs\<close>

text \<open>
  A clock reading of the year 2021 (nanoseconds since the zero time), a router timeout of
  ten seconds, and statistics with a single tenant \<open>A\<close>: five pending \<open>WEBHOOK\<close> jobs and an
  input rate of a quarter job per second.
\<close>

definition sampleNow :: int where
  "sampleNow = 63771000000000000000"

definition tenSeconds :: int where
  "tenSeconds = 10000000000"

definition oneTenantStats :: MultitenantStatsT where
  "oneTenantStats =
     \<lparr> RouterInMemoryJobCounts = [''router'' \<mapsto> [''A'' \<mapsto> [''WEBHOOK'' \<mapsto> 5]], ''batch_router'' \<mapsto> Map.empty],
       RouterInputRates = [''router'' \<mapsto> [''A'' \<mapsto> [''WEBHOOK'' \<mapsto> 1 / 4]], ''batch_router'' \<mapsto> Map.empty],
       lastDrainedTimestamps = Map.empty \<rparr>"

text \<open>The same tenant after three more jobs were removed than were ever added.\<close>

definition overdrawnStats :: MultitenantStatsT where
  "overdrawnStats =
     \<lparr> RouterInMemoryJobCounts = [''router'' \<mapsto> [''A'' \<mapsto> [''WEBHOOK'' \<mapsto> - 3]], ''batch_router'' \<mapsto> Map.empty],
       RouterInputRates = [''router'' \<mapsto> [''A'' \<mapsto> [''WEBHOOK'' \<mapsto> 1]], ''batch_router'' \<mapsto> Map.empty],
       lastDrainedTimestamps = Map.empty \<rparr>"

text \<open>
  Two tenants with five pending jobs and a quarter job per second each; \<open>B\<close> was last
  drained five seconds before \<open>sampleNow\<close>, \<open>A\<close> never.
\<close>

definition twoTenantStats :: MultitenantStatsT where
  "twoTenantStats =
     \<lparr> RouterInMemoryJobCounts =
         [''router'' \<mapsto> [''A'' \<mapsto> [''WEBHOOK'' \<mapsto> 5], ''B'' \<mapsto> [''WEBHOOK'' \<mapsto> 5]],
          ''batch_router'' \<mapsto> Map.empty],
       RouterInputRates =
         [''router'' \<mapsto> [''A'' \<mapsto> [''WEBHOOK'' \<mapsto> 1 / 4], ''B'' \<mapsto> [''WEBHOOK'' \<mapsto> 1 / 4]],
          ''batch_router'' \<mapsto> Map.empty],
       lastDrainedTimestamps = [''B'' \<mapsto> [''WEBHOOK'' \<mapsto> 63770999995000000000]] \<rparr>"

definition unitLatencies :: "string \<rightharpoonup> real" where
  "unitLatencies = [''A'' \<mapsto> 1, ''B'' \<mapsto> 1]"

text \<open>A tenant with five pending jobs whose input rate was never reported.\<close>

definition noRateStats :: MultitenantStatsT where
  "noRateStats =
     \<lparr> RouterInMemoryJobCounts = [''router'' \<mapsto> [''A'' \<mapsto> [''WEBHOOK'' \<mapsto> 5]], ''batch_router'' \<mapsto> Map.empty],
       RouterInputRates = [''router'' \<mapsto> Map.empty, ''batch_router'' \<mapsto> Map.empty],
       lastDrainedTimestamps = Map.empty \<rparr>"

section \<open>Dataset index arithmetic\<close>

text \<open>
  \<open>computeInsertIdx\<close> and \<open>computeIdxForClusterMigration\<close> are called by the tests of
  package jobsdb; their bodies are not among the sources. An index is a string of numbers
  joined by \<open>_\<close>; the order of two indices compares them level by level as numbers,
  the shorter one filled up with zeros.
\<close>

datatype indexError = MalformedIndex | EmptyDatasetList | TooManyLevels | NestedTarget

record dataSetT =
  JobTable :: string
  JobStatusTable :: string
  Index :: string

fun splitOn :: "char \<Rightarrow> string \<Rightarrow> string list" where
  "splitOn sep [] = [] # []"
| "splitOn sep (c # cs) =
     (if c = sep then [] # splitOn sep cs
      else (case splitOn sep cs of [] \<Rightarrow> [c] # [] | w # ws \<Rightarrow> (c # w) # ws))"

definition isDigit :: "char \<Rightarrow> bool" where
  "isDigit c \<longleftrightarrow> c \<in> set ''0123456789''"

definition digitVal :: "char \<Rightarrow> nat" where
  "digitVal c = length (takeWhile (\<lambda>d. d \<noteq> c) ''0123456789'')"

definition digitChar :: "nat \<Rightarrow> char" where
  "digitChar d = ''0123456789'' ! d"

definition parseNat :: "string \<Rightarrow> nat option" where
  "parseNat s = (if s \<noteq> [] \<and> list_all isDigit s
                 then Some (foldl (\<lambda>acc c. 10 * acc + digitVal c) 0 s) else None)"

fun showNat :: "nat \<Rightarrow> string" where
  "showNat n = (if n < 10 then [digitChar n] else showNat (n div 10) @ [digitChar (n mod 10)])"

declare showNat.simps [simp del]

fun those_opt :: "'a option list \<Rightarrow> 'a list option" where
  "those_opt [] = Some []"
| "those_opt (None # xs) = None"
| "those_opt (Some x # xs) = (case those_opt xs of None \<Rightarrow> None | Some ys \<Rightarrow> Some (x # ys))"

definition levelsOf :: "string \<Rightarrow> string list" where
  "levelsOf idx = splitOn (CHR ''_'') idx"

definition parseIndex :: "string \<Rightarrow> nat list option" where
  "parseIndex idx = those_opt (map parseNat (levelsOf idx))"

fun joinLevels :: "string list \<Rightarrow> string" where
  "joinLevels [] = []"
| "joinLevels [w] = w"
| "joinLevels (w # ws) = w @ ''_'' @ joinLevels ws"

definition renderIndex :: "nat list \<Rightarrow> string" where
  "renderIndex levels = joinLevels (map showNat levels)"

fun idxLess :: "nat list \<Rightarrow> nat list \<Rightarrow> bool" where
  "idxLess [] [] = False"
| "idxLess [] (y # ys) = (0 < y \<or> (y = 0 \<and> idxLess [] ys))"
| "idxLess (x # xs) [] = False"
| "idxLess (x # xs) (y # ys) = (x < y \<or> (x = y \<and> idxLess xs ys))"

text \<open>
  Modelled from the spec: \<open>computeInsertIdx\<close> is not among the sources. The spec states
  its rule by comparing the level counts of the two indices; the test table of the sources
  (\<open>newDSIdx tests\<close>) fixes fifteen results, and the rule that gives all of them, and
  every example of the spec, looks at \<open>before\<close> alone: a base index (one level, or the
  two levels \<open>0_k\<close> of an import dataset) gets the level \<open>_1\<close> appended, and an index
  that is itself a nested insertion has its last level incremented. The two readings
  differ on five rows of the table (as \<open>1_1\<close> before \<open>2_1\<close>, expected \<open>1_2\<close>), where
  the definition follows the table. A level that is not a number is an error.
\<close>

definition isBaseIndex :: "nat list \<Rightarrow> bool" where
  "isBaseIndex levels \<longleftrightarrow> length levels = 1 \<or> (length levels = 2 \<and> hd levels = 0)"

definition computeInsertIdx :: "string \<Rightarrow> string \<Rightarrow> indexError + string" where
  "computeInsertIdx beforeIndex afterIndex =
     (case parseIndex beforeIndex of
        None \<Rightarrow> Inl MalformedIndex
      | Some before \<Rightarrow>
         (case parseIndex afterIndex of
            None \<Rightarrow> Inl MalformedIndex
          | Some after \<Rightarrow>
              if isBaseIndex before then Inr (beforeIndex @ ''_1'')
              else Inr (renderIndex (butlast before @ [last before + 1]))))"

text \<open>The largest second level among the listed datasets whose first level is 0.\<close>

definition maxSecondLevel :: "dataSetT list \<Rightarrow> nat" where
  "maxSecondLevel dList =
     foldl max 0 (concat (map (\<lambda>ds. case parseIndex (Index ds) of
                                        Some (level0 # level1 # rest) \<Rightarrow> (if level0 = 0 then [level1] else [])
                                      | _ \<Rightarrow> []) dList))"

text \<open>
  Modelled from the spec: \<open>computeIdxForClusterMigration\<close> (the spec's
  \<open>computeClusterMigrationIdx\<close>) is not among the sources. It fails on an empty list, on
  a target of more than two levels or with a level that is not a number, and on a target
  whose index is that of a listed dataset of the nested form \<open>a_b\<close>; else it gives
  \<open>0_1\<close> when the first listed dataset has one level, and \<open>0_<k+1>\<close> otherwise, \<open>k\<close>
  the largest second level among the listed datasets whose first level is 0.
\<close>

definition computeIdxForClusterMigration :: "string \<Rightarrow> dataSetT list \<Rightarrow> dataSetT \<Rightarrow> indexError + string" where
  "computeIdxForClusterMigration tablePrefix dList insertBeforeDS =
     (if dList = [] then Inl EmptyDatasetList
      else if length (levelsOf (Index insertBeforeDS)) > 2 then Inl TooManyLevels
      else if parseIndex (Index insertBeforeDS) = None then Inl MalformedIndex
      else if list_ex (\<lambda>ds. Index ds = Index insertBeforeDS \<and> length (levelsOf (Index ds)) = 2) dList
      then Inl NestedTarget
      else if length (levelsOf (Index (hd dList))) = 1 then Inr ''0_1''
      else Inr (''0_'' @ showNat (maxSecondLevel dList + 1)))"

definition dataSet :: "string \<Rightarrow> dataSetT" where
  "dataSet idx = \<lparr> JobTable = [], JobStatusTable = [], Index = idx \<rparr>"

section \<open>Storage engine\<close>

text \<open>
  \<open>Store\<close>, \<open>StoreWithRetryEach\<close> and \<open>UpdateJobStatus\<close> are called by the tests of package
  jobsdb; their bodies are not among the sources. The store they talk to is modelled by
  its tables, by the list of statements it has been sent, and by a description of which
  statements it refuses: the tests script the same with their mock database.
\<close>

record JobT =
  UUID :: string
  UserID :: string
  CustomVal :: string
  Parameters :: string
  EventPayload :: string

record JobStatusT =
  JobID :: int
  JobState :: string
  AttemptNum :: int
  ExecTime :: int
  RetryTime :: int
  ErrorCode :: string
  ErrorResponse :: string

record dataSetRangeT =
  minJobID :: int
  maxJobID :: int
  startTime :: int
  endTime :: int
  ds :: dataSetT

text \<open>An error of the store: one of the driver, with its code, or any other, with its text.\<close>

datatype dbError = PqError string string | OtherError string

fun errorText :: "dbError \<Rightarrow> string" where
  "errorText (PqError code message) = message"
| "errorText (OtherError message) = message"

datatype dbStatement =
    Begin
  | CopyJobs string "JobT list"
  | CopyStatuses string "JobStatusT list"
  | InsertJob string JobT
  | Commit
  | Rollback

record database =
  jobRows :: "string \<Rightarrow> JobT list"
  statusRows :: "string \<Rightarrow> JobStatusT list"

record storeBehaviour =
  beginFails :: "dbError option"
  copyFails :: "string \<Rightarrow> dbError option"
  commitFails :: "dbError option"
  insertFails :: "string \<Rightarrow> JobT \<Rightarrow> dbError option"

text \<open>
  Modelled from the spec: \<open>Store\<close> is not among the sources. It begins a transaction,
  opens one bulk copy of the jobs into the jobs table of the head dataset, and commits; a
  failure at any of the three rolls back and returns the error. The result is the error
  or nothing, the tables afterwards, and the statements sent.
\<close>

definition Store ::
  "storeBehaviour \<Rightarrow> database \<Rightarrow> dataSetT \<Rightarrow> JobT list \<Rightarrow> (dbError + unit) \<times> database \<times> dbStatement list" where
  "Store store db head jobs =
     (case beginFails store of
        Some err \<Rightarrow> (Inl err, db, [Begin])
      | None \<Rightarrow>
         (case copyFails store (JobTable head) of
            Some err \<Rightarrow> (Inl err, db, [Begin, CopyJobs (JobTable head) jobs, Rollback])
          | None \<Rightarrow>
             (case commitFails store of
                Some err \<Rightarrow> (Inl err, db, [Begin, CopyJobs (JobTable head) jobs, Commit])
              | None \<Rightarrow>
                  (Inr (),
                   db\<lparr>jobRows := (jobRows db)(JobTable head := jobRows db (JobTable head) @ jobs)\<rparr>,
                   [Begin, CopyJobs (JobTable head) jobs, Commit]))))"

text \<open>
  The statement of the single-row insert takes the payload through
  \<open>regexp_replace(_, '\\u0000', '', 'g')\<close>: one pass from the left that drops every
  occurrence of the six characters backslash, \<open>u\<close>, \<open>0\<close>, \<open>0\<close>, \<open>0\<close>, \<open>0\<close>.
\<close>

definition nulSequence :: string where
  "nulSequence = [CHR 0x5C, CHR ''u'', CHR ''0'', CHR ''0'', CHR ''0'', CHR ''0'']"

fun stripNul :: "string \<Rightarrow> string" where
  "stripNul (a # b # c # d # e # f # rest) =
     (if [a, b, c, d, e, f] = nulSequence then stripNul rest
      else a # stripNul (b # c # d # e # f # rest))"
| "stripNul short = short"

definition insertedRow :: "JobT \<Rightarrow> JobT" where
  "insertedRow job = job\<lparr>EventPayload := stripNul (EventPayload job)\<rparr>"

text \<open>
  The message recorded for a row the store refuses: \<open>Invalid JSON\<close> for the class
  invalid text representation (code \<open>22P02\<close>), the text of the error otherwise.
\<close>

fun rowMessage :: "dbError \<Rightarrow> string" where
  "rowMessage (PqError code message) = (if code = ''22P02'' then ''Invalid JSON'' else message)"
| "rowMessage (OtherError message) = message"

text \<open>
  One job of the retry: a single-row insert, outside any transaction, of the job with its
  payload stripped. A refused row leaves a message under the UUID of the job.
\<close>

fun storeEach ::
  "storeBehaviour \<Rightarrow> string \<Rightarrow> JobT list \<Rightarrow> (string \<rightharpoonup> string) \<times> database \<times> dbStatement list
     \<Rightarrow> (string \<rightharpoonup> string) \<times> database \<times> dbStatement list" where
  "storeEach store table [] acc = acc"
| "storeEach store table (job # rest) (errorMessagesMap, db, sent) =
     (case insertFails store table (insertedRow job) of
        Some err \<Rightarrow>
          storeEach store table rest
            (errorMessagesMap(UUID job \<mapsto> rowMessage err), db, sent @ [InsertJob table (insertedRow job)])
      | None \<Rightarrow>
          storeEach store table rest
            (errorMessagesMap,
             db\<lparr>jobRows := (jobRows db)(table := jobRows db table @ [insertedRow job])\<rparr>,
             sent @ [InsertJob table (insertedRow job)]))"

text \<open>
  Modelled from the spec: \<open>StoreWithRetryEach\<close> is not among the sources. It attempts
  \<open>Store\<close> and returns the empty map when that succeeds; otherwise every job is inserted
  on its own, once, and the messages of the refused rows are returned by UUID.
\<close>

definition StoreWithRetryEach ::
  "storeBehaviour \<Rightarrow> database \<Rightarrow> dataSetT \<Rightarrow> JobT list \<Rightarrow> (string \<rightharpoonup> string) \<times> database \<times> dbStatement list" where
  "StoreWithRetryEach store db head jobs =
     (case Store store db head jobs of
        (Inr ok, db', sent) \<Rightarrow> (Map.empty, db', sent)
      | (Inl err, db', sent) \<Rightarrow> storeEach store (JobTable head) jobs (Map.empty, db', sent))"

text \<open>
  The dataset of a status: the search over the cached ranges, which are in the order of
  the job ids, stops at the first range that does not end below the job id; a job id
  below the start of that range, or above every range, is in no known range and the
  status is passed over.
\<close>

definition targetRange :: "dataSetRangeT list \<Rightarrow> int \<Rightarrow> dataSetRangeT option" where
  "targetRange ranges jobID =
     (case find (\<lambda>r. jobID \<le> maxJobID r) ranges of
        None \<Rightarrow> None
      | Some r \<Rightarrow> if minJobID r \<le> jobID then Some r else None)"

definition statusPartitions :: "dataSetRangeT list \<Rightarrow> JobStatusT list \<Rightarrow> (string \<times> JobStatusT list) list" where
  "statusPartitions ranges statusList =
     filter (\<lambda>(table, rows). rows \<noteq> [])
       (map (\<lambda>r. (JobStatusTable (ds r),
                   filter (\<lambda>status. targetRange ranges (JobID status) = Some r) statusList)) ranges)"

fun copyPartitions ::
  "storeBehaviour \<Rightarrow> (string \<times> JobStatusT list) list \<Rightarrow> database \<Rightarrow> dbStatement list
     \<Rightarrow> (dbError + database) \<times> dbStatement list" where
  "copyPartitions store [] tx sent = (Inr tx, sent)"
| "copyPartitions store ((table, rows) # rest) tx sent =
     (case copyFails store table of
        Some err \<Rightarrow> (Inl err, sent @ [CopyStatuses table rows])
      | None \<Rightarrow>
          copyPartitions store rest
            (tx\<lparr>statusRows := (statusRows tx)(table := statusRows tx table @ rows)\<rparr>)
            (sent @ [CopyStatuses table rows]))"

text \<open>
  Modelled from the spec: \<open>UpdateJobStatus\<close> is not among the sources. The statuses are
  partitioned by dataset, one transaction is begun, every dataset with work gets a bulk
  copy of its partition into its status table, and the transaction is committed; the
  first failure rolls it back and is returned. The two filters name cache entries to
  drop, which the spec leaves out.
\<close>

definition UpdateJobStatus ::
  "storeBehaviour \<Rightarrow> database \<Rightarrow> dataSetRangeT list \<Rightarrow> JobStatusT list \<Rightarrow> string list \<Rightarrow> string list
     \<Rightarrow> (dbError + unit) \<times> database \<times> dbStatement list" where
  "UpdateJobStatus store db ranges statusList customValFilters parameterFilters =
     (case beginFails store of
        Some err \<Rightarrow> (Inl err, db, [Begin])
      | None \<Rightarrow>
         (case copyPartitions store (statusPartitions ranges statusList) db [Begin] of
            (Inl err, sent) \<Rightarrow> (Inl err, db, sent @ [Rollback])
          | (Inr tx, sent) \<Rightarrow>
             (case commitFails store of
                Some err \<Rightarrow> (Inl err, db, sent @ [Commit])
              | None \<Rightarrow> (Inr (), tx, sent @ [Commit]))))"


subsection \<open>The data of the tests\<close>

text \<open>
  The two datasets, the ranges and the two statuses of the tests of \<open>UpdateJobStatus\<close>, two
  jobs with short payloads, the second with the UUID of the test's job of malformed JSON,
  and empty tables.
\<close>

definition d1 :: dataSetT where
  "d1 = \<lparr> JobTable = ''tt_jobs_1'', JobStatusTable = ''tt_job_status_1'', Index = [] \<rparr>"

definition d2 :: dataSetT where
  "d2 = \<lparr> JobTable = ''tt_jobs_2'', JobStatusTable = ''tt_job_status_2'', Index = [] \<rparr>"

definition dsRangeList :: "dataSetRangeT list" where
  "dsRangeList =
     [\<lparr> minJobID = 1, maxJobID = 10, startTime = 0, endTime = 0, ds = d1 \<rparr>,
      \<lparr> minJobID = 10, maxJobID = 20, startTime = 0, endTime = 0, ds = d2 \<rparr>]"

definition succeededStatus :: JobStatusT where
  "succeededStatus = \<lparr> JobID = 1, JobState = ''succeeded'', AttemptNum = 1, ExecTime = 0, RetryTime = 0,
                        ErrorCode = ''200'', ErrorResponse = ''{}'' \<rparr>"

definition abortedStatus :: JobStatusT where
  "abortedStatus = \<lparr> JobID = 11, JobState = ''aborted'', AttemptNum = 1, ExecTime = 0, RetryTime = 0,
                      ErrorCode = ''400'', ErrorResponse = ''{}'' \<rparr>"

definition goodJob :: JobT where
  "goodJob = \<lparr> UUID = ''69359037-9599-48e7-b8f2-48393c019135'', UserID = ''u1'', CustomVal = ''GW'',
                Parameters = ''{}'', EventPayload = ''[1'' @ nulSequence @ '']'' \<rparr>"

definition badJsonJob :: JobT where
  "badJsonJob = \<lparr> UUID = ''a362c501-c38e-4aee-ae61-4a3b095ebcab'', UserID = ''u2'', CustomVal = ''WEBHOOK'',
                   Parameters = ''{}'', EventPayload = ''{receivedAt'' \<rparr>"

definition emptyDatabase :: database where
  "emptyDatabase = \<lparr> jobRows = (\<lambda>table. []), statusRows = (\<lambda>table. []) \<rparr>"

text \<open>A store that refuses to begin a transaction and refuses the row of \<open>badJsonJob\<close>.\<close>

definition bulkRefused :: storeBehaviour where
  "bulkRefused =
     \<lparr> beginFails = Some (OtherError ''failed to prepare''),
       copyFails = (\<lambda>table. None),
       commitFails = None,
       insertFails = (\<lambda>table row. if UUID row = UUID badJsonJob then Some (PqError ''22P02'' []) else None) \<rparr>"

text \<open>A store that refuses the bulk copy into the status table of the second dataset.\<close>

definition secondCopyRefused :: storeBehaviour where
  "secondCopyRefused =
     \<lparr> beginFails = None,
       copyFails = (\<lambda>table. if table = ''tt_job_status_2'' then Some (OtherError ''exec failed'') else None),
       commitFails = None,
       insertFails = (\<lambda>table row. None) \<rparr>"

section \<open>Paired counter updates\<close>

lemma bumpInMemoryCount_eq:
  assumes "RouterInMemoryJobCounts st tableType = Some tbl"
  shows "bumpInMemoryCount c d delta tableType st =
     Some (st\<lparr>RouterInMemoryJobCounts := (RouterInMemoryJobCounts st)(tableType \<mapsto>
              tbl(c \<mapsto> (case tbl c of None \<Rightarrow> Map.empty | Some m \<Rightarrow> m)
                   (d \<mapsto> jobCount st tableType c d + delta)))\<rparr>)"
  using assms by (simp add: bumpInMemoryCount_def jobCount_def Let_def split: option.split)

lemma bumpInMemoryCount_None:
  "bumpInMemoryCount c d delta tableType st = None \<longleftrightarrow> RouterInMemoryJobCounts st tableType = None"
  by (cases "RouterInMemoryJobCounts st tableType") (simp_all add: bumpInMemoryCount_def Let_def)

lemma bumpInMemoryCount_jobCount:
  assumes "bumpInMemoryCount c d delta tableType st = Some st'"
  shows "jobCount st' tt c' d' =
           (if tt = tableType \<and> c' = c \<and> d' = d then jobCount st tt c' d' + delta
            else jobCount st tt c' d')"
proof -
  from assms obtain tbl where t: "RouterInMemoryJobCounts st tableType = Some tbl"
    using bumpInMemoryCount_None [of c d delta tableType st] by fastforce
  have u: "RouterInMemoryJobCounts st' =
           (RouterInMemoryJobCounts st)(tableType \<mapsto>
              tbl(c \<mapsto> (case tbl c of None \<Rightarrow> Map.empty | Some m \<Rightarrow> m)
                   (d \<mapsto> jobCount st tableType c d + delta)))"
    using assms bumpInMemoryCount_eq [OF t, of c d delta] by auto
  show ?thesis
  proof (cases "tt = tableType")
    case False
    then show ?thesis by (simp add: jobCount_def u)
  next
    case tt: True
    show ?thesis
    proof (cases "c' = c")
      case False
      then show ?thesis using tt t by (simp add: jobCount_def u)
    next
      case cc: True
      show ?thesis
      proof (cases "d' = d")
        case True
        then show ?thesis using tt cc t by (simp add: jobCount_def u)
      next
        case False
        then show ?thesis using tt cc t by (simp add: jobCount_def u split: option.split)
      qed
    qed
  qed
qed

lemma bumpInMemoryCount_keeps_tables:
  assumes "bumpInMemoryCount c d delta tableType st = Some st'"
  shows "RouterInMemoryJobCounts st' tableType \<noteq> None"
proof -
  from assms obtain tbl where t: "RouterInMemoryJobCounts st tableType = Some tbl"
    using bumpInMemoryCount_None [of c d delta tableType st] by fastforce
  show ?thesis
    using assms bumpInMemoryCount_eq [OF t, of c d delta] by auto
qed

text \<open>
  C10, as stated, at a table type that \<open>Init\<close> did not register: both calls panic on the
  store into the nil map, and no counter is changed.
\<close>

theorem unregistered_table_type_panics:
  "AddToInMemoryCount ''A'' ''WEBHOOK'' 1 ''gateway'' Init = None
   \<and> RemoveFromInMemoryCount ''A'' ''WEBHOOK'' 1 ''gateway'' Init = None"
  by (simp add: AddToInMemoryCount_def RemoveFromInMemoryCount_def bumpInMemoryCount_def Init_def)

text \<open>
  C10 (amended): for a table type that has its map (\<open>router\<close> and \<open>batch_router\<close> after
  \<open>Init\<close>), every tenant, destination type and \<open>n\<close>: \<open>AddToInMemoryCount\<close> returns and adds
  \<open>n\<close> to the counter of (table type, tenant, destination); \<open>RemoveFromInMemoryCount\<close> with
  the same arguments then returns and adds \<open>-n\<close> to that same counter; after both, every
  counter reads as before; and neither call changes the reading of any other counter.
  The additions are those of the 64-bit machine integer.
\<close>

theorem add_then_remove_restores:
  assumes "RouterInMemoryJobCounts st tableType \<noteq> None"
  shows "\<exists>st1 st2.
           AddToInMemoryCount customerID destinationType n tableType st = Some st1
         \<and> RemoveFromInMemoryCount customerID destinationType n tableType st1 = Some st2
         \<and> jobCount st1 tableType customerID destinationType
             = jobCount st tableType customerID destinationType + n
         \<and> jobCount st2 tableType customerID destinationType
             = jobCount st1 tableType customerID destinationType + (- n)
         \<and> (\<forall>tt c d. jobCount st2 tt c d = jobCount st tt c d)
         \<and> (\<forall>tt c d. (tt, c, d) \<noteq> (tableType, customerID, destinationType) \<longrightarrow>
               jobCount st1 tt c d = jobCount st tt c d \<and> jobCount st2 tt c d = jobCount st1 tt c d)"
proof -
  from assms obtain st1 where a: "AddToInMemoryCount customerID destinationType n tableType st = Some st1"
    using bumpInMemoryCount_None [of customerID destinationType n tableType st]
    by (auto simp: AddToInMemoryCount_def)
  then have a': "bumpInMemoryCount customerID destinationType n tableType st = Some st1"
    by (simp add: AddToInMemoryCount_def)
  have "RouterInMemoryJobCounts st1 tableType \<noteq> None"
    using a' by (rule bumpInMemoryCount_keeps_tables)
  then obtain st2 where
    r: "RemoveFromInMemoryCount customerID destinationType n tableType st1 = Some st2"
    using bumpInMemoryCount_None [of customerID destinationType "- 1 * n" tableType st1]
    by (auto simp: RemoveFromInMemoryCount_def)
  then have r': "bumpInMemoryCount customerID destinationType (- 1 * n) tableType st1 = Some st2"
    by (simp add: RemoveFromInMemoryCount_def)
  have j1: "\<And>tt c d. jobCount st1 tt c d =
              (if tt = tableType \<and> c = customerID \<and> d = destinationType
               then jobCount st tt c d + n else jobCount st tt c d)"
    using a' by (rule bumpInMemoryCount_jobCount)
  have j2: "\<And>tt c d. jobCount st2 tt c d =
              (if tt = tableType \<and> c = customerID \<and> d = destinationType
               then jobCount st1 tt c d + (- 1 * n) else jobCount st1 tt c d)"
    using r' by (rule bumpInMemoryCount_jobCount)
  have "jobCount st1 tableType customerID destinationType
          = jobCount st tableType customerID destinationType + n"
    by (simp add: j1)
  moreover have "jobCount st2 tableType customerID destinationType
          = jobCount st1 tableType customerID destinationType + (- n)"
    by (simp add: j2)
  moreover have "\<forall>tt c d. jobCount st2 tt c d = jobCount st tt c d"
    by (simp add: j1 j2)
  moreover have "\<forall>tt c d. (tt, c, d) \<noteq> (tableType, customerID, destinationType) \<longrightarrow>
               jobCount st1 tt c d = jobCount st tt c d \<and> jobCount st2 tt c d = jobCount st1 tt c d"
    by (auto simp: j1 j2)
  ultimately show ?thesis using a r by blast
qed

theorem add_then_remove_restores_witness:
  "RouterInMemoryJobCounts Init ''router'' \<noteq> None
   \<and> (\<exists>st1 st2.
         AddToInMemoryCount ''A'' ''WEBHOOK'' 3 ''router'' Init = Some st1
       \<and> RemoveFromInMemoryCount ''A'' ''WEBHOOK'' 3 ''router'' st1 = Some st2
       \<and> jobCount st1 ''router'' ''A'' ''WEBHOOK'' = 3
       \<and> jobCount st2 ''router'' ''A'' ''WEBHOOK'' = 0
       \<and> jobCount st1 ''router'' ''B'' ''WEBHOOK'' = 0
       \<and> jobCount st2 ''batch_router'' ''A'' ''WEBHOOK'' = 0)"
proof -
  have h: "RouterInMemoryJobCounts Init ''router'' \<noteq> None"
    by (simp add: Init_def)
  have z: "\<And>tt c d. jobCount Init tt c d = 0"
    by (simp add: jobCount_def Init_def split: option.split)
  from add_then_remove_restores [OF h, of "''A''" "''WEBHOOK''" 3]
  obtain st1 st2 where
    "AddToInMemoryCount ''A'' ''WEBHOOK'' 3 ''router'' Init = Some st1"
    "RemoveFromInMemoryCount ''A'' ''WEBHOOK'' 3 ''router'' st1 = Some st2"
    "jobCount st1 ''router'' ''A'' ''WEBHOOK'' = jobCount Init ''router'' ''A'' ''WEBHOOK'' + 3"
    "\<forall>tt c d. jobCount st2 tt c d = jobCount Init tt c d"
    "\<forall>tt c d. (tt, c, d) \<noteq> (''router'', ''A'', ''WEBHOOK'') \<longrightarrow>
               jobCount st1 tt c d = jobCount Init tt c d \<and> jobCount st2 tt c d = jobCount st1 tt c d"
    by blast
  then show ?thesis using h z by (intro conjI exI [of _ st1] exI [of _ st2]) simp_all
qed

section \<open>The planner on the sample inputs\<close>

text \<open>
  The boosted timeout in \<open>float64\<close>: 13 s for a timeout of 10 s. For a timeout of
  854724828493863 ns the rounded product is one nanosecond above the exact one, which is
  1111142277042021.9.
\<close>

lemma boosted_ten_seconds: "boostedRouterTimeOut 10000000000 = 13000000000"
  by code_simp

lemma boosted_rounds_as_float64: "boostedRouterTimeOut 854724828493863 = 1111142277042022"
  by code_simp

lemmas planner_defs = GetRouterPickupJobs_def finalListWithIndicator_def deprioritised_def
  timeSince_def getLastDrainedTimestamp_def wrap64_def maxDuration_def minDuration_def
  initialState_def boosted_ten_seconds truncF_def second_def inRateStep_def inRate_def
  inRatePick_def pendingCount_def jobCount_def timeGiven_def MinInt_def MaxInt_def
  pileUpPick_def pickedCount_def Let_def sampleNow_def tenSeconds_def

text \<open>
  C1 at a failing input. Tenant \<open>A\<close> has 5 pending jobs, latency 1 s and an input rate of
  1/4 job per second; one worker, a timeout of 10 s and a batch size of 100. Pass 1 credits
  \<open>min (1/4 * 13) (13 / 1) = 3\<close> jobs and leaves 97 jobs and 10 s. In Pass 2,
  \<open>1 * 5 < 10\<close>, so the claim gives \<open>min (5 - 3) 97 = 2\<close> more and 5 in all; the source
  subtracts \<open>customerPickUpCount[destType]\<close>, which is 0, credits \<open>min (5 - 0) 97 = 5\<close>
  more and returns 8 for a tenant with 5 pending jobs. The first conjunct is the state
  between the passes.
\<close>

theorem pileUp_ignores_jobs_already_picked:
  "inRatePass oneTenantStats ''WEBHOOK'' [''A'' \<mapsto> 1] tenSeconds [(''A'', False)] (initialState 1 tenSeconds 100)
     = Some \<lparr> customerPickUpCount = [''A'' \<mapsto> 3], runningJobCount = 97, runningTimeCounter = 10 \<rparr>
   \<and> GetRouterPickupJobs oneTenantStats sampleNow ''WEBHOOK'' [''A''] 1 tenSeconds [''A'' \<mapsto> 1] 100
     = Some [''A'' \<mapsto> 8]"
  by (simp add: planner_defs oneTenantStats_def)

text \<open>
  C4 at a failing input. The counter of tenant \<open>A\<close> reads -3, its latency is 0 (no
  observation yet) and its input rate is 1 job per second. The branch for a zero latency
  takes \<open>MinInt 13 (-3) = -3\<close> and does not clamp it to \<open>max 0 (-3) = 0\<close> as the branch for
  a nonzero latency does: the tenant is credited -3 jobs and the job budget grows from 100
  to 103.
\<close>

theorem zero_latency_pick_not_clamped:
  "inRateStep overdrawnStats ''WEBHOOK'' [''A'' \<mapsto> 0] tenSeconds (''A'', False) (initialState 1 tenSeconds 100)
     = Some \<lparr> customerPickUpCount = [''A'' \<mapsto> - 3], runningJobCount = 103, runningTimeCounter = 13 \<rparr>"
  by (simp add: planner_defs overdrawnStats_def)

section \<open>Accounting lemmas for the two passes\<close>

lemma pickupSum_upd:
  assumes "finite (dom m)"
  shows "pickupSum (m(k \<mapsto> v)) = pickupSum m - pickedCount m k + v"
proof -
  have d: "dom (m(k \<mapsto> v)) = insert k (dom m - {k})" by auto
  have fin: "finite (dom m - {k})" using assms by simp
  have same: "(\<Sum>x\<in>dom m - {k}. pickedCount (m(k \<mapsto> v)) x) = (\<Sum>x\<in>dom m - {k}. pickedCount m x)"
    by (rule sum.cong) (simp_all add: pickedCount_def)
  have "pickupSum (m(k \<mapsto> v)) = (\<Sum>x\<in>insert k (dom m - {k}). pickedCount (m(k \<mapsto> v)) x)"
    by (simp only: pickupSum_def d)
  also have "\<dots> = pickedCount (m(k \<mapsto> v)) k + (\<Sum>x\<in>dom m - {k}. pickedCount (m(k \<mapsto> v)) x)"
    by (rule sum.insert) (use fin in auto)
  finally have new: "pickupSum (m(k \<mapsto> v)) = v + (\<Sum>x\<in>dom m - {k}. pickedCount m x)"
    using same by (simp add: pickedCount_def)
  have old: "pickupSum m = pickedCount m k + (\<Sum>x\<in>dom m - {k}. pickedCount m x)"
  proof (cases "k \<in> dom m")
    case True
    then show ?thesis unfolding pickupSum_def using assms by (simp add: sum.remove)
  next
    case False
    then have "dom m - {k} = dom m" and "pickedCount m k = 0"
      by (auto simp: pickedCount_def domIff)
    then show ?thesis by (simp add: pickupSum_def)
  qed
  show ?thesis using new old by simp
qed

lemma pickupSum_del:
  assumes "finite (dom m)"
  shows "pickupSum (m(k := None)) = pickupSum m - pickedCount m k"
proof -
  have d: "dom (m(k := None)) = dom m - {k}" by auto
  have same: "(\<Sum>x\<in>dom m - {k}. pickedCount (m(k := None)) x) = (\<Sum>x\<in>dom m - {k}. pickedCount m x)"
    by (rule sum.cong) (simp_all add: pickedCount_def)
  have old: "pickupSum m = pickedCount m k + (\<Sum>x\<in>dom m - {k}. pickedCount m x)"
  proof (cases "k \<in> dom m")
    case True
    then show ?thesis unfolding pickupSum_def using assms by (simp add: sum.remove)
  next
    case False
    then have "dom m - {k} = dom m" and "pickedCount m k = 0"
      by (auto simp: pickedCount_def domIff)
    then show ?thesis by (simp add: pickupSum_def)
  qed
  show ?thesis using old same by (simp add: pickupSum_def d)
qed

lemma inRatePick_account:
  assumes "inRatePick st destType latencyMap tg k rate s = Some s'"
    and "finite (dom (customerPickUpCount s))" and "k \<notin> dom (customerPickUpCount s)"
  shows "pickupSum (customerPickUpCount s') + runningJobCount s'
           = pickupSum (customerPickUpCount s) + runningJobCount s
         \<and> finite (dom (customerPickUpCount s'))
         \<and> dom (customerPickUpCount s') \<subseteq> insert k (dom (customerPickUpCount s))"
proof -
  from assms(1) obtain latency where lat: "latencyMap k = Some latency"
    by (cases "latencyMap k") (simp_all add: inRatePick_def)
  have zero: "pickedCount (customerPickUpCount s) k = 0"
    using assms(3) by (auto simp: pickedCount_def domIff)
  from assms(1) lat obtain pick where
    s': "s' = \<lparr> customerPickUpCount =
                  (if pick = 0 then (customerPickUpCount s)(k := None)
                   else (customerPickUpCount s)(k \<mapsto> pick)),
                runningJobCount = runningJobCount s - pick,
                runningTimeCounter = runningTimeCounter s' \<rparr>"
    by (auto simp: inRatePick_def Let_def)
  show ?thesis
  proof (cases "pick = 0")
    case True
    then have c: "customerPickUpCount s' = (customerPickUpCount s)(k := None)"
      and r: "runningJobCount s' = runningJobCount s"
      by (subst s', simp)+
    show ?thesis using assms(2) zero by (auto simp: c r pickupSum_del)
  next
    case False
    then have c: "customerPickUpCount s' = (customerPickUpCount s)(k \<mapsto> pick)"
      and r: "runningJobCount s' = runningJobCount s - pick"
      by (subst s', simp)+
    show ?thesis using assms(2) zero by (auto simp: c r pickupSum_upd)
  qed
qed


lemma inRateStep_account:
  assumes "inRateStep st destType latencyMap rt e s = Some s'"
    and "finite (dom (customerPickUpCount s))" and "fst e \<notin> dom (customerPickUpCount s)"
  shows "pickupSum (customerPickUpCount s') + runningJobCount s'
           = pickupSum (customerPickUpCount s) + runningJobCount s
             + (if takesReserve st destType e s then 1 else 0)
         \<and> finite (dom (customerPickUpCount s'))
         \<and> dom (customerPickUpCount s') \<subseteq> insert (fst e) (dom (customerPickUpCount s))"
proof (cases "inRate st (fst e) destType")
  case None
  then have "s' = s" using assms(1) by (simp add: inRateStep_def)
  then show ?thesis using None assms(2) by (auto simp: takesReserve_def)
next
  case (Some rate)
  have zero: "pickedCount (customerPickUpCount s) (fst e) = 0"
    using assms(3) by (auto simp: pickedCount_def domIff)
  show ?thesis
  proof (cases "runningJobCount s \<le> 0 \<or> runningTimeCounter s \<le> 0")
    case ex: True
    show ?thesis
    proof (cases "0 < pendingCount st (fst e) destType")
      case True
      then have s': "s' = s\<lparr>customerPickUpCount := (customerPickUpCount s)(fst e \<mapsto> 1)\<rparr>"
        using assms(1) Some ex by (auto simp: inRateStep_def)
      have res: "takesReserve st destType e s"
        using Some ex True by (simp add: takesReserve_def)
      show ?thesis using assms(2) zero res by (auto simp: s' pickupSum_upd)
    next
      case False
      then have "s' = s" using assms(1) Some ex by (auto simp: inRateStep_def)
      moreover have "\<not> takesReserve st destType e s"
        using False by (simp add: takesReserve_def)
      ultimately show ?thesis using assms(2) by auto
    qed
  next
    case False
    then have "inRatePick st destType latencyMap (timeGiven rt (snd e)) (fst e) rate s = Some s'"
      using assms(1) Some by (auto simp: inRateStep_def)
    from inRatePick_account [OF this assms(2,3)]
    show ?thesis using False by (simp add: takesReserve_def)
  qed
qed

lemma inRatePass_account:
  assumes "inRatePass st destType latencyMap rt es s = Some s'"
    and "finite (dom (customerPickUpCount s))"
    and "distinct (map fst es)"
    and "dom (customerPickUpCount s) \<inter> fst ` set es = {}"
  shows "pickupSum (customerPickUpCount s') + runningJobCount s'
           = pickupSum (customerPickUpCount s) + runningJobCount s
             + reserveCredits st destType latencyMap rt es s
         \<and> finite (dom (customerPickUpCount s'))"
  using assms
proof (induction es arbitrary: s)
  case Nil
  then show ?case by simp
next
  case (Cons e es)
  from Cons.prems(1) obtain s1 where
    step: "inRateStep st destType latencyMap rt e s = Some s1"
    and rest: "inRatePass st destType latencyMap rt es s1 = Some s'"
    by (cases "inRateStep st destType latencyMap rt e s") simp_all
  have notin: "fst e \<notin> dom (customerPickUpCount s)"
    using Cons.prems(4) by auto
  from inRateStep_account [OF step Cons.prems(2) notin]
  have acc: "pickupSum (customerPickUpCount s1) + runningJobCount s1
           = pickupSum (customerPickUpCount s) + runningJobCount s
             + (if takesReserve st destType e s then 1 else 0)"
    and fin: "finite (dom (customerPickUpCount s1))"
    and sub: "dom (customerPickUpCount s1) \<subseteq> insert (fst e) (dom (customerPickUpCount s))"
    by blast+
  have d: "distinct (map fst es)" and fresh: "fst e \<notin> fst ` set es"
    using Cons.prems(3) by auto
  have old: "dom (customerPickUpCount s) \<inter> fst ` set es = {}"
    using Cons.prems(4) by auto
  have disj: "dom (customerPickUpCount s1) \<inter> fst ` set es = {}"
  proof (rule ccontr)
    assume "dom (customerPickUpCount s1) \<inter> fst ` set es \<noteq> {}"
    then obtain x where x1: "x \<in> dom (customerPickUpCount s1)" and x2: "x \<in> fst ` set es"
      by blast
    from x1 sub have "x = fst e \<or> x \<in> dom (customerPickUpCount s)" by blast
    then show False
    proof
      assume "x = fst e"
      with x2 fresh show False by simp
    next
      assume "x \<in> dom (customerPickUpCount s)"
      with x2 old show False by blast
    qed
  qed
  from Cons.IH [OF rest fin d disj]
  have "pickupSum (customerPickUpCount s') + runningJobCount s'
           = pickupSum (customerPickUpCount s1) + runningJobCount s1
             + reserveCredits st destType latencyMap rt es s1"
    and "finite (dom (customerPickUpCount s'))"
    by blast+
  then show ?case using acc step by simp
qed

lemma pileUpPick_account:
  assumes "finite (dom (customerPickUpCount s))"
  shows "pickupSum (customerPickUpCount (pileUpPick destType k pending latency s))
           + runningJobCount (pileUpPick destType k pending latency s)
           = pickupSum (customerPickUpCount s) + runningJobCount s
         \<and> finite (dom (customerPickUpCount (pileUpPick destType k pending latency s)))
         \<and> (0 < runningJobCount s \<longrightarrow> 0 \<le> runningJobCount (pileUpPick destType k pending latency s))"
  using assms by (simp add: pileUpPick_def Let_def pickupSum_upd MinInt_def)

lemma pileUpPass_account:
  assumes "pileUpPass st destType latencyMap ks s = Some s'"
    and "finite (dom (customerPickUpCount s))"
  shows "pickupSum (customerPickUpCount s') + runningJobCount s'
           = pickupSum (customerPickUpCount s) + runningJobCount s
         \<and> min 0 (runningJobCount s) \<le> runningJobCount s'"
  using assms
proof (induction ks arbitrary: s)
  case Nil
  then show ?case by simp
next
  case (Cons k ks)
  let ?entry = "case RouterInMemoryJobCounts st ''router'' of None \<Rightarrow> None | Some tbl \<Rightarrow> tbl k"
  let ?pending = "pendingCount st k destType"
  have cases3: "pileUpPass st destType latencyMap ks s = Some s' \<or> s' = s
      \<or> (\<exists>latency. 0 < runningJobCount s
            \<and> pileUpPass st destType latencyMap ks (pileUpPick destType k ?pending latency s) = Some s')"
  proof (cases ?entry)
    case None
    then show ?thesis using Cons.prems(1) by simp
  next
    case (Some customerCountKey)
    show ?thesis
    proof (cases "?pending = 0")
      case True
      then show ?thesis using Cons.prems(1) Some by simp
    next
      case nz: False
      show ?thesis
      proof (cases "runningJobCount s \<le> 0 \<or> runningTimeCounter s \<le> 0")
        case True
        then show ?thesis using Cons.prems(1) Some nz by simp
      next
        case go: False
        show ?thesis
        proof (cases "latencyMap k")
          case None
          then show ?thesis using Cons.prems(1) Some nz go by simp
        next
          case (Some latency)
          then show ?thesis using Cons.prems(1) \<open>?entry = Some customerCountKey\<close> nz go by auto
        qed
      qed
    qed
  qed
  then consider (skip) "pileUpPass st destType latencyMap ks s = Some s'"
    | (stop) "s' = s"
    | (pick) latency where "0 < runningJobCount s"
        "pileUpPass st destType latencyMap ks (pileUpPick destType k ?pending latency s) = Some s'"
    by blast
  then show ?case
  proof cases
    case skip
    from Cons.IH [OF skip Cons.prems(2)] show ?thesis .
  next
    case stop
    then show ?thesis by simp
  next
    case (pick latency)
    let ?s1 = "pileUpPick destType k ?pending latency s"
    from pileUpPick_account [OF Cons.prems(2), of destType k ?pending latency]
    have acc: "pickupSum (customerPickUpCount ?s1) + runningJobCount ?s1
                 = pickupSum (customerPickUpCount s) + runningJobCount s"
      and fin: "finite (dom (customerPickUpCount ?s1))"
      and nn: "0 \<le> runningJobCount ?s1"
      using pick(1) by blast+
    from Cons.IH [OF pick(2) fin]
    have "pickupSum (customerPickUpCount s') + runningJobCount s'
            = pickupSum (customerPickUpCount ?s1) + runningJobCount ?s1"
      and "min 0 (runningJobCount ?s1) \<le> runningJobCount s'"
      by blast+
    then show ?thesis using acc nn pick(1) by simp
  qed
qed

lemma splitLists_filter:
  "splitLists depri xs (f, d) = (f @ filter (\<lambda>c. \<not> depri c) xs, d @ filter depri xs)"
  by (induction xs arbitrary: f d) simp_all

lemma zip_flags:
  "zip (a @ b) (replicate (length a) False @ replicate (length b) True)
     = map (\<lambda>c. (c, False)) a @ map (\<lambda>c. (c, True)) b"
  by (simp add: zip_replicate2)

lemma finalListWithIndicator_filter:
  "finalListWithIndicator depri xs
     = map (\<lambda>c. (c, False)) (filter (\<lambda>c. \<not> depri c) xs) @ map (\<lambda>c. (c, True)) (filter depri xs)"
  by (simp add: finalListWithIndicator_def splitLists_filter zip_flags del: zip_append)

lemma finalList_keys:
  "map fst (finalListWithIndicator depri xs) = filter (\<lambda>c. \<not> depri c) xs @ filter depri xs"
  by (simp add: finalListWithIndicator_filter comp_def)

lemma finalList_distinct:
  "distinct xs \<Longrightarrow> distinct (map fst (finalListWithIndicator depri xs))"
  by (auto simp: finalList_keys)

section \<open>Bounds on the planner's output\<close>

lemma inRatePass_append:
  "inRatePass st destType latencyMap rt (xs @ ys) s =
     (case inRatePass st destType latencyMap rt xs s of
        None \<Rightarrow> None
      | Some s' \<Rightarrow> inRatePass st destType latencyMap rt ys s')"
  by (induction xs arbitrary: s) (simp_all split: option.split)

lemma inRateStep_exhausted:
  assumes "runningJobCount s \<le> 0 \<or> runningTimeCounter s \<le> 0"
  shows "\<exists>s'. inRateStep st destType latencyMap rt e s = Some s'
            \<and> runningJobCount s' = runningJobCount s
            \<and> runningTimeCounter s' = runningTimeCounter s
            \<and> (\<forall>k. customerPickUpCount s k = Some 1 \<longrightarrow> customerPickUpCount s' k = Some 1)"
  using assms by (cases "inRate st (fst e) destType") (auto simp: inRateStep_def)

lemma inRatePass_exhausted:
  assumes "runningJobCount s \<le> 0 \<or> runningTimeCounter s \<le> 0"
  shows "\<exists>s'. inRatePass st destType latencyMap rt es s = Some s'
            \<and> runningJobCount s' = runningJobCount s
            \<and> runningTimeCounter s' = runningTimeCounter s
            \<and> (\<forall>k. customerPickUpCount s k = Some 1 \<longrightarrow> customerPickUpCount s' k = Some 1)"
  using assms
proof (induction es arbitrary: s)
  case Nil
  then show ?case by simp
next
  case (Cons e es)
  from inRateStep_exhausted [OF Cons.prems, of st destType latencyMap rt e]
  obtain s1 where 1: "inRateStep st destType latencyMap rt e s = Some s1"
    "runningJobCount s1 = runningJobCount s" "runningTimeCounter s1 = runningTimeCounter s"
    "\<forall>k. customerPickUpCount s k = Some 1 \<longrightarrow> customerPickUpCount s1 k = Some 1"
    by blast
  then have "runningJobCount s1 \<le> 0 \<or> runningTimeCounter s1 \<le> 0"
    using Cons.prems by simp
  from Cons.IH [OF this]
  obtain s2 where 2: "inRatePass st destType latencyMap rt es s1 = Some s2"
    "runningJobCount s2 = runningJobCount s1" "runningTimeCounter s2 = runningTimeCounter s1"
    "\<forall>k. customerPickUpCount s1 k = Some 1 \<longrightarrow> customerPickUpCount s2 k = Some 1"
    by blast
  show ?case using 1 2 by simp
qed

lemma inRateStep_reserves:
  assumes "runningJobCount s \<le> 0 \<or> runningTimeCounter s \<le> 0"
    and "inRate st t destType = Some rate" and "0 < pendingCount st t destType"
  shows "inRateStep st destType latencyMap rt (t, d) s
           = Some (s\<lparr>customerPickUpCount := (customerPickUpCount s)(t \<mapsto> 1)\<rparr>)"
  using assms by (auto simp: inRateStep_def)

lemma pileUpPass_exhausted:
  assumes "runningJobCount s \<le> 0 \<or> runningTimeCounter s \<le> 0"
  shows "pileUpPass st destType latencyMap ks s = Some s"
  using assms by (induction ks) (auto split: option.split)

text \<open>
  C2, as stated, on the two sample tenants with a batch size of 3: \<open>A\<close> is credited
  \<open>min (1/4 * 13) (13 / 1) = 3\<close> jobs, which uses the job budget up; \<open>B\<close> is then reached
  with \<open>runningJobCount = 0\<close> and is given the reserve of 1. The counts returned sum to 4.
\<close>

theorem reserve_exceeds_batch_size:
  "GetRouterPickupJobs twoTenantStats sampleNow ''WEBHOOK'' [''B'', ''A''] 1 tenSeconds unitLatencies 3
     = Some [''A'' \<mapsto> 3, ''B'' \<mapsto> 1]
   \<and> pickupSum [''A'' \<mapsto> 3, ''B'' \<mapsto> 1] = 4
   \<and> \<not> pickupSum [''A'' \<mapsto> 3, ''B'' \<mapsto> 1] \<le> 3"
  by (simp add: planner_defs twoTenantStats_def unitLatencies_def pickupSum_def)

lemma reserveCredits_le:
  "reserveCredits st destType latencyMap rt es s
     \<le> int (length (filter (\<lambda>t. inRate st t destType \<noteq> None \<and> 0 < pendingCount st t destType) (map fst es)))"
proof (induction es arbitrary: s)
  case Nil
  show ?case by simp
next
  case (Cons e es)
  show ?case
  proof (cases "inRateStep st destType latencyMap rt e s")
    case None
    then show ?thesis by simp
  next
    case (Some s')
    show ?thesis
    proof (cases "takesReserve st destType e s")
      case True
      then have "inRate st (fst e) destType \<noteq> None \<and> 0 < pendingCount st (fst e) destType"
        by (simp add: takesReserve_def)
      then show ?thesis using Cons [of s'] Some True by simp
    next
      case False
      have "reserveCredits st destType latencyMap rt (e # es) s
              = reserveCredits st destType latencyMap rt es s'"
        using Some False by simp
      also have "\<dots> \<le> int (length (filter (\<lambda>t. inRate st t destType \<noteq> None \<and> 0 < pendingCount st t destType) (map fst es)))"
        by (rule Cons)
      also have "\<dots> \<le> int (length (filter (\<lambda>t. inRate st t destType \<noteq> None \<and> 0 < pendingCount st t destType) (map fst (e # es))))"
        by simp
      finally show ?thesis .
    qed
  qed
qed

lemma length_filter_split:
  "length (filter P (filter (\<lambda>c. \<not> Q c) xs @ filter Q xs)) = length (filter P xs)"
  by (induction xs) auto

text \<open>
  C2 (amended): for a list of distinct tenants on which the planner returns and on which
  Pass 1 has not overdrawn the job budget (\<open>runningJobCount\<close> is not negative after
  Pass 1), the sum of the returned pickup counts is at most \<open>jobQueryBatchSize\<close> plus the
  number of tenants of the list that have an input rate and pending jobs for \<open>destType\<close>:
  each of them may be given the reserve of 1 when it is reached with the budget used up.
  What the sum is when a pick of Pass 1 exceeds the job budget left is not stated.
\<close>

theorem pickup_sum_bound:
  assumes dist: "distinct sortedLatencyList"
    and p1: "inRatePass st destType latencyMap rt
               (finalListWithIndicator (deprioritised st now destType rt) sortedLatencyList)
               (initialState noOfWorkers rt batch) = Some s1"
    and within: "0 \<le> runningJobCount s1"
    and out: "GetRouterPickupJobs st now destType sortedLatencyList noOfWorkers rt latencyMap batch = Some out"
  shows "pickupSum out \<le> batch
           + int (length (filter (\<lambda>t. inRate st t destType \<noteq> None \<and> 0 < pendingCount st t destType)
                            sortedLatencyList))"
proof -
  let ?final = "finalListWithIndicator (deprioritised st now destType rt) sortedLatencyList"
  let ?s0 = "initialState noOfWorkers rt batch"
  let ?P = "\<lambda>t. inRate st t destType \<noteq> None \<and> 0 < pendingCount st t destType"
  from out p1 obtain s2 where p2: "pileUpPass st destType latencyMap (map fst ?final) s1 = Some s2"
    and o: "out = customerPickUpCount s2"
    by (auto simp: GetRouterPickupJobs_def Let_def split: option.splits)
  have "pickupSum (customerPickUpCount s1) + runningJobCount s1
           = pickupSum (customerPickUpCount ?s0) + runningJobCount ?s0
             + reserveCredits st destType latencyMap rt ?final ?s0"
    and fin: "finite (dom (customerPickUpCount s1))"
    using inRatePass_account [OF p1 _ finalList_distinct [OF dist]]
    by (simp_all add: initialState_def)
  then have a1: "pickupSum (customerPickUpCount s1) + runningJobCount s1
           = batch + reserveCredits st destType latencyMap rt ?final ?s0"
    by (simp add: initialState_def pickupSum_def)
  from pileUpPass_account [OF p2 fin]
  have a2: "pickupSum (customerPickUpCount s2) + runningJobCount s2
           = pickupSum (customerPickUpCount s1) + runningJobCount s1"
    and "min 0 (runningJobCount s1) \<le> runningJobCount s2"
    by blast+
  then have nn: "0 \<le> runningJobCount s2" using within by simp
  have "reserveCredits st destType latencyMap rt ?final ?s0 \<le> int (length (filter ?P (map fst ?final)))"
    by (rule reserveCredits_le)
  also have "length (filter ?P (map fst ?final)) = length (filter ?P sortedLatencyList)"
    by (simp only: finalList_keys length_filter_split)
  finally have r: "reserveCredits st destType latencyMap rt ?final ?s0
                     \<le> int (length (filter ?P sortedLatencyList))" .
  show ?thesis using a1 a2 nn r o by simp
qed

theorem pickup_sum_bound_witness:
  "distinct [''B'', ''A'']
   \<and> inRatePass twoTenantStats ''WEBHOOK'' unitLatencies tenSeconds
        (finalListWithIndicator (deprioritised twoTenantStats sampleNow ''WEBHOOK'' tenSeconds) [''B'', ''A''])
        (initialState 1 tenSeconds 3)
       = Some \<lparr> customerPickUpCount = [''A'' \<mapsto> 3, ''B'' \<mapsto> 1], runningJobCount = 0, runningTimeCounter = 10 \<rparr>
   \<and> GetRouterPickupJobs twoTenantStats sampleNow ''WEBHOOK'' [''B'', ''A''] 1 tenSeconds unitLatencies 3
       = Some [''A'' \<mapsto> 3, ''B'' \<mapsto> 1]
   \<and> length (filter (\<lambda>t. inRate twoTenantStats t ''WEBHOOK'' \<noteq> None \<and> 0 < pendingCount twoTenantStats t ''WEBHOOK'')
                [''B'', ''A'']) = 2
   \<and> pickupSum [''A'' \<mapsto> 3, ''B'' \<mapsto> 1] \<le> 3 + 2"
proof -
  let ?s1 = "\<lparr> customerPickUpCount = [''A'' \<mapsto> 3, ''B'' \<mapsto> 1], runningJobCount = 0, runningTimeCounter = 10 \<rparr>"
  have d: "distinct [''B'', ''A'']" by simp
  have p1: "inRatePass twoTenantStats ''WEBHOOK'' unitLatencies tenSeconds
        (finalListWithIndicator (deprioritised twoTenantStats sampleNow ''WEBHOOK'' tenSeconds) [''B'', ''A''])
        (initialState 1 tenSeconds 3) = Some ?s1"
    by (simp add: planner_defs twoTenantStats_def unitLatencies_def)
  have w: "0 \<le> runningJobCount ?s1" by simp
  have out: "GetRouterPickupJobs twoTenantStats sampleNow ''WEBHOOK'' [''B'', ''A''] 1 tenSeconds unitLatencies 3
       = Some [''A'' \<mapsto> 3, ''B'' \<mapsto> 1]"
    by (simp add: planner_defs twoTenantStats_def unitLatencies_def)
  have n: "length (filter (\<lambda>t. inRate twoTenantStats t ''WEBHOOK'' \<noteq> None \<and> 0 < pendingCount twoTenantStats t ''WEBHOOK'')
                [''B'', ''A'']) = 2"
  proof -
    have "inRate twoTenantStats ''A'' ''WEBHOOK'' = Some (1 / 4)"
      and "inRate twoTenantStats ''B'' ''WEBHOOK'' = Some (1 / 4)"
      by (simp_all add: inRate_def twoTenantStats_def)
    moreover have "pendingCount twoTenantStats ''A'' ''WEBHOOK'' = 5"
      and "pendingCount twoTenantStats ''B'' ''WEBHOOK'' = 5"
      by (simp_all add: pendingCount_def jobCount_def twoTenantStats_def)
    ultimately show ?thesis by (simp del: not_None_eq)
  qed
  from pickup_sum_bound [OF d p1 w out] n
  have "pickupSum [''A'' \<mapsto> 3, ''B'' \<mapsto> 1] \<le> 3 + 2"
    by simp
  then show ?thesis using d p1 out n by blast
qed

text \<open>
  C3, as stated, on a tenant with five pending jobs and no input rate, with a batch size
  of 0: the budget is used up when the in-rate loop reaches the tenant, the loop passes
  over it for want of an input rate, the pile-up loop stops at it, and the returned map
  is empty.
\<close>

theorem no_reserve_without_input_rate:
  "pendingCount noRateStats ''A'' ''WEBHOOK'' = 5
   \<and> runningJobCount (initialState 1 tenSeconds 0) = 0
   \<and> GetRouterPickupJobs noRateStats sampleNow ''WEBHOOK'' [''A''] 1 tenSeconds [''A'' \<mapsto> 1] 0
       = Some Map.empty"
  by (simp add: planner_defs noRateStats_def)

text \<open>
  C3 (amended): for every tenant \<open>t\<close> that has an input rate for \<open>destType\<close> and a
  positive pending count for it, and that the in-rate loop reaches (after the entries
  \<open>pre\<close> of the final list) with the job-count or the time budget used up, the planner
  returns, and the returned map assigns \<open>t\<close> a pickup count of 1.
\<close>

theorem starved_tenant_gets_one:
  assumes fl: "finalListWithIndicator (deprioritised st now destType rt) sortedLatencyList = pre @ (t, d) # post"
    and pre: "inRatePass st destType latencyMap rt pre (initialState noOfWorkers rt batch) = Some s"
    and ex: "runningJobCount s \<le> 0 \<or> runningTimeCounter s \<le> 0"
    and rate: "inRate st t destType = Some rate"
    and pend: "0 < pendingCount st t destType"
  shows "\<exists>out. GetRouterPickupJobs st now destType sortedLatencyList noOfWorkers rt latencyMap batch = Some out
            \<and> out t = Some 1"
proof -
  let ?s1 = "s\<lparr>customerPickUpCount := (customerPickUpCount s)(t \<mapsto> 1)\<rparr>"
  have step: "inRateStep st destType latencyMap rt (t, d) s = Some ?s1"
    using ex rate pend by (rule inRateStep_reserves)
  have ex1: "runningJobCount ?s1 \<le> 0 \<or> runningTimeCounter ?s1 \<le> 0"
    using ex by simp
  from inRatePass_exhausted [OF ex1, of st destType latencyMap rt post]
  obtain s2 where 2: "inRatePass st destType latencyMap rt post ?s1 = Some s2"
    "runningJobCount s2 = runningJobCount ?s1" "runningTimeCounter s2 = runningTimeCounter ?s1"
    "\<forall>k. customerPickUpCount ?s1 k = Some 1 \<longrightarrow> customerPickUpCount s2 k = Some 1"
    by blast
  have whole: "inRatePass st destType latencyMap rt (pre @ (t, d) # post)
                 (initialState noOfWorkers rt batch) = Some s2"
    using pre step 2(1) by (simp add: inRatePass_append)
  have ex2: "runningJobCount s2 \<le> 0 \<or> runningTimeCounter s2 \<le> 0"
    using ex 2(2,3) by simp
  have "pileUpPass st destType latencyMap (map fst (pre @ (t, d) # post)) s2 = Some s2"
    using ex2 by (rule pileUpPass_exhausted)
  then have "GetRouterPickupJobs st now destType sortedLatencyList noOfWorkers rt latencyMap batch
               = Some (customerPickUpCount s2)"
    using whole fl by (simp add: GetRouterPickupJobs_def Let_def)
  moreover have "customerPickUpCount s2 t = Some 1"
    using 2(4) by simp
  ultimately show ?thesis by blast
qed

theorem starved_tenant_gets_one_witness:
  "finalListWithIndicator (deprioritised twoTenantStats sampleNow ''WEBHOOK'' tenSeconds) [''B'', ''A'']
     = [(''A'', False)] @ (''B'', True) # []
   \<and> inRatePass twoTenantStats ''WEBHOOK'' unitLatencies tenSeconds [(''A'', False)] (initialState 1 tenSeconds 3)
     = Some \<lparr> customerPickUpCount = [''A'' \<mapsto> 3], runningJobCount = 0, runningTimeCounter = 10 \<rparr>
   \<and> inRate twoTenantStats ''B'' ''WEBHOOK'' = Some (1 / 4)
   \<and> 0 < pendingCount twoTenantStats ''B'' ''WEBHOOK''
   \<and> (\<exists>out. GetRouterPickupJobs twoTenantStats sampleNow ''WEBHOOK'' [''B'', ''A''] 1 tenSeconds unitLatencies 3 = Some out
          \<and> out ''B'' = Some 1)"
proof -
  let ?s = "\<lparr> customerPickUpCount = [''A'' \<mapsto> 3], runningJobCount = 0, runningTimeCounter = 10 \<rparr>"
  have fl: "finalListWithIndicator (deprioritised twoTenantStats sampleNow ''WEBHOOK'' tenSeconds) [''B'', ''A'']
     = [(''A'', False)] @ (''B'', True) # []"
    by (simp add: planner_defs twoTenantStats_def)
  have pre: "inRatePass twoTenantStats ''WEBHOOK'' unitLatencies tenSeconds [(''A'', False)] (initialState 1 tenSeconds 3)
     = Some ?s"
    by (simp add: planner_defs twoTenantStats_def unitLatencies_def)
  have ex: "runningJobCount ?s \<le> 0 \<or> runningTimeCounter ?s \<le> 0" by simp
  have rate: "inRate twoTenantStats ''B'' ''WEBHOOK'' = Some (1 / 4)"
    by (simp add: inRate_def twoTenantStats_def)
  have pend: "0 < pendingCount twoTenantStats ''B'' ''WEBHOOK''"
    by (simp add: pendingCount_def jobCount_def twoTenantStats_def)
  from starved_tenant_gets_one [OF fl pre ex rate pend]
  show ?thesis using fl pre rate pend by blast
qed

section \<open>Priority by last drain\<close>

lemma wrap64_le: "wrap64 x \<le> maxDuration"
proof -
  have "(x + 2 ^ 63) mod 2 ^ 64 < (2 ^ 64 :: int)" by simp
  then show ?thesis by (simp add: wrap64_def maxDuration_def)
qed

lemma wrap64_id: "- (2 ^ 63) \<le> x \<Longrightarrow> x < 2 ^ 63 \<Longrightarrow> wrap64 x = x"
  by (simp add: wrap64_def)

lemma never_drained_zero_time:
  assumes "lastDrainedTimestamps st c = None
           \<or> (\<exists>m. lastDrainedTimestamps st c = Some m \<and> m destType = None)"
  shows "getLastDrainedTimestamp st c destType = 0"
  using assms by (auto simp: getLastDrainedTimestamp_def)

lemma zero_time_not_deprioritised:
  assumes "getLastDrainedTimestamp st c destType = 0" and "maxDuration \<le> now"
  shows "\<not> deprioritised st now destType rt c"
proof -
  have "timeSince now 0 = maxDuration"
    using assms(2) by (simp add: timeSince_def maxDuration_def minDuration_def)
  then show ?thesis
    using wrap64_le [of "10 * rt"] assms(1) by (simp add: deprioritised_def)
qed

lemma deprioritised_in_range:
  assumes "- (2 ^ 63) \<le> 10 * rt" and "10 * rt < 2 ^ 63"
    and "minDuration \<le> now - getLastDrainedTimestamp st c destType"
    and "now - getLastDrainedTimestamp st c destType \<le> maxDuration"
  shows "deprioritised st now destType rt c \<longleftrightarrow> now - getLastDrainedTimestamp st c destType < 10 * rt"
  using assms by (simp add: deprioritised_def timeSince_def wrap64_id)

text \<open>
  C5: the final list is the latency-sorted list split in two with the order kept: first
  the tenants that are not deprioritised, with indicator \<open>False\<close>, then the deprioritised
  ones, with indicator \<open>True\<close>. The in-rate loop runs over the first part and then over
  the second, and the pile-up loop over the same order. An entry with an input rate that
  the in-rate loop reaches with budget left is picked for with the boosted timeout
  (\<open>1.3 * routerTimeOut\<close>, multiplied in \<open>float64\<close> and truncated to whole nanoseconds)
  when its indicator is \<open>False\<close>, and with \<open>routerTimeOut\<close> when it is \<open>True\<close>. A
  tenant is deprioritised when \<open>time.Since\<close> of its last drained timestamp is below
  \<open>10 * routerTimeOut\<close>; a tenant that was never drained has the zero time as its
  timestamp and is not deprioritised (the clock being more than \<open>maxDuration\<close> after
  the zero time); and where neither the product nor the difference leaves the range of a
  duration, a tenant is prioritised exactly when its timestamp is at least
  \<open>10 * routerTimeOut\<close> before the clock reading.
\<close>

theorem planner_partitions_by_last_drain:
  fixes st :: MultitenantStatsT and now rt :: int and destType :: string
  defines "depri \<equiv> deprioritised st now destType rt"
  shows "finalListWithIndicator depri xs
           = map (\<lambda>c. (c, False)) (filter (\<lambda>c. \<not> depri c) xs) @ map (\<lambda>c. (c, True)) (filter depri xs)
       \<and> GetRouterPickupJobs st now destType xs noOfWorkers rt latencyMap batch
           = (case inRatePass st destType latencyMap rt (map (\<lambda>c. (c, False)) (filter (\<lambda>c. \<not> depri c) xs))
                     (initialState noOfWorkers rt batch) of
                None \<Rightarrow> None
              | Some s \<Rightarrow>
                 (case inRatePass st destType latencyMap rt (map (\<lambda>c. (c, True)) (filter depri xs)) s of
                    None \<Rightarrow> None
                  | Some s1 \<Rightarrow>
                     (case pileUpPass st destType latencyMap (filter (\<lambda>c. \<not> depri c) xs @ filter depri xs) s1 of
                        None \<Rightarrow> None
                      | Some s2 \<Rightarrow> Some (customerPickUpCount s2))))
       \<and> (\<forall>c rate s. inRate st c destType = Some rate \<and> 0 < runningJobCount s \<and> 0 < runningTimeCounter s
             \<longrightarrow> inRateStep st destType latencyMap rt (c, False) s
                   = inRatePick st destType latencyMap
                       (truncF (float64 (float64 (13 / 10) * float64 (real_of_int rt)))) c rate s
                 \<and> inRateStep st destType latencyMap rt (c, True) s
                   = inRatePick st destType latencyMap rt c rate s)
       \<and> (\<forall>c. depri c \<longleftrightarrow> timeSince now (getLastDrainedTimestamp st c destType) < wrap64 (10 * rt))
       \<and> (\<forall>c. maxDuration \<le> now
               \<and> (lastDrainedTimestamps st c = None
                  \<or> (\<exists>m. lastDrainedTimestamps st c = Some m \<and> m destType = None))
             \<longrightarrow> \<not> depri c)
       \<and> (\<forall>c. - (2 ^ 63) \<le> 10 * rt \<and> 10 * rt < 2 ^ 63
               \<and> minDuration \<le> now - getLastDrainedTimestamp st c destType
               \<and> now - getLastDrainedTimestamp st c destType \<le> maxDuration
             \<longrightarrow> (\<not> depri c \<longleftrightarrow> 10 * rt \<le> now - getLastDrainedTimestamp st c destType))"
proof -
  have a: "finalListWithIndicator depri xs
           = map (\<lambda>c. (c, False)) (filter (\<lambda>c. \<not> depri c) xs) @ map (\<lambda>c. (c, True)) (filter depri xs)"
    by (rule finalListWithIndicator_filter)
  have k: "map fst (map (\<lambda>c. (c, False)) (filter (\<lambda>c. \<not> depri c) xs) @ map (\<lambda>c. (c, True)) (filter depri xs))
             = filter (\<lambda>c. \<not> depri c) xs @ filter depri xs"
    by (simp add: comp_def)
  have b: "GetRouterPickupJobs st now destType xs noOfWorkers rt latencyMap batch
           = (case inRatePass st destType latencyMap rt (map (\<lambda>c. (c, False)) (filter (\<lambda>c. \<not> depri c) xs))
                     (initialState noOfWorkers rt batch) of
                None \<Rightarrow> None
              | Some s \<Rightarrow>
                 (case inRatePass st destType latencyMap rt (map (\<lambda>c. (c, True)) (filter depri xs)) s of
                    None \<Rightarrow> None
                  | Some s1 \<Rightarrow>
                     (case pileUpPass st destType latencyMap (filter (\<lambda>c. \<not> depri c) xs @ filter depri xs) s1 of
                        None \<Rightarrow> None
                      | Some s2 \<Rightarrow> Some (customerPickUpCount s2))))"
  proof (cases "inRatePass st destType latencyMap rt (map (\<lambda>c. (c, False)) (filter (\<lambda>c. \<not> depri c) xs))
                     (initialState noOfWorkers rt batch)")
    case None
    then show ?thesis
      unfolding GetRouterPickupJobs_def Let_def depri_def [symmetric] a inRatePass_append k
      by simp
  next
    case (Some s)
    then show ?thesis
      unfolding GetRouterPickupJobs_def Let_def depri_def [symmetric] a inRatePass_append k
      by simp
  qed
  have c: "\<forall>c rate s. inRate st c destType = Some rate \<and> 0 < runningJobCount s \<and> 0 < runningTimeCounter s
             \<longrightarrow> inRateStep st destType latencyMap rt (c, False) s
                   = inRatePick st destType latencyMap
                       (truncF (float64 (float64 (13 / 10) * float64 (real_of_int rt)))) c rate s
                 \<and> inRateStep st destType latencyMap rt (c, True) s
                   = inRatePick st destType latencyMap rt c rate s"
    by (simp add: inRateStep_def timeGiven_def boostedRouterTimeOut_def)
  have e: "\<forall>c. depri c \<longleftrightarrow> timeSince now (getLastDrainedTimestamp st c destType) < wrap64 (10 * rt)"
    by (simp add: depri_def deprioritised_def)
  have f: "\<forall>c. maxDuration \<le> now
               \<and> (lastDrainedTimestamps st c = None
                  \<or> (\<exists>m. lastDrainedTimestamps st c = Some m \<and> m destType = None))
             \<longrightarrow> \<not> depri c"
    unfolding depri_def
    using zero_time_not_deprioritised never_drained_zero_time by blast
  have g: "\<forall>c. - (2 ^ 63) \<le> 10 * rt \<and> 10 * rt < 2 ^ 63
               \<and> minDuration \<le> now - getLastDrainedTimestamp st c destType
               \<and> now - getLastDrainedTimestamp st c destType \<le> maxDuration
             \<longrightarrow> (\<not> depri c \<longleftrightarrow> 10 * rt \<le> now - getLastDrainedTimestamp st c destType)"
    unfolding depri_def using deprioritised_in_range by (simp add: not_less)
  show ?thesis using a b c e f g by blast
qed

theorem planner_partitions_by_last_drain_witness:
  "maxDuration \<le> sampleNow
   \<and> lastDrainedTimestamps twoTenantStats ''A'' = None
   \<and> - (2 ^ 63) \<le> 10 * tenSeconds \<and> 10 * tenSeconds < 2 ^ 63
   \<and> minDuration \<le> sampleNow - getLastDrainedTimestamp twoTenantStats ''B'' ''WEBHOOK''
   \<and> sampleNow - getLastDrainedTimestamp twoTenantStats ''B'' ''WEBHOOK'' \<le> maxDuration
   \<and> sampleNow - getLastDrainedTimestamp twoTenantStats ''B'' ''WEBHOOK'' = 5000000000
   \<and> \<not> deprioritised twoTenantStats sampleNow ''WEBHOOK'' tenSeconds ''A''
   \<and> deprioritised twoTenantStats sampleNow ''WEBHOOK'' tenSeconds ''B''
   \<and> finalListWithIndicator (deprioritised twoTenantStats sampleNow ''WEBHOOK'' tenSeconds) [''B'', ''A'']
       = [(''A'', False), (''B'', True)]
   \<and> inRate twoTenantStats ''A'' ''WEBHOOK'' = Some (1 / 4)
   \<and> inRate twoTenantStats ''B'' ''WEBHOOK'' = Some (1 / 4)
   \<and> inRateStep twoTenantStats ''WEBHOOK'' unitLatencies tenSeconds (''A'', False) (initialState 1 tenSeconds 100)
       = inRatePick twoTenantStats ''WEBHOOK'' unitLatencies 13000000000 ''A'' (1 / 4) (initialState 1 tenSeconds 100)
   \<and> inRateStep twoTenantStats ''WEBHOOK'' unitLatencies tenSeconds (''B'', True) (initialState 1 tenSeconds 100)
       = inRatePick twoTenantStats ''WEBHOOK'' unitLatencies 10000000000 ''B'' (1 / 4) (initialState 1 tenSeconds 100)
   \<and> inRatePass twoTenantStats ''WEBHOOK'' unitLatencies tenSeconds [(''A'', False), (''B'', True)]
        (initialState 1 tenSeconds 100)
       = Some \<lparr> customerPickUpCount = [''A'' \<mapsto> 3, ''B'' \<mapsto> 2], runningJobCount = 95, runningTimeCounter = 8 \<rparr>"
proof -
  note T = planner_partitions_by_last_drain
    [where st = twoTenantStats and now = sampleNow and destType = "''WEBHOOK''" and rt = tenSeconds
       and xs = "[''B'', ''A'']" and noOfWorkers = 1 and latencyMap = unitLatencies and batch = 100]
  let ?s0 = "initialState 1 tenSeconds 100"
  have h2: "maxDuration \<le> sampleNow" by (simp add: maxDuration_def sampleNow_def)
  have h3: "lastDrainedTimestamps twoTenantStats ''A'' = None" by (simp add: twoTenantStats_def)
  have h4: "- (2 ^ 63) \<le> 10 * tenSeconds \<and> 10 * tenSeconds < 2 ^ 63" by (simp add: tenSeconds_def)
  have ts: "getLastDrainedTimestamp twoTenantStats ''B'' ''WEBHOOK'' = 63770999995000000000"
    by (simp add: getLastDrainedTimestamp_def twoTenantStats_def)
  have h5: "sampleNow - getLastDrainedTimestamp twoTenantStats ''B'' ''WEBHOOK'' = 5000000000"
    by (simp add: ts sampleNow_def)
  have h6: "minDuration \<le> sampleNow - getLastDrainedTimestamp twoTenantStats ''B'' ''WEBHOOK''"
    "sampleNow - getLastDrainedTimestamp twoTenantStats ''B'' ''WEBHOOK'' \<le> maxDuration"
    by (simp_all add: h5 minDuration_def maxDuration_def)
  have a: "\<not> deprioritised twoTenantStats sampleNow ''WEBHOOK'' tenSeconds ''A''"
    using T h2 h3 by blast
  have "\<not> deprioritised twoTenantStats sampleNow ''WEBHOOK'' tenSeconds ''B''
          \<longleftrightarrow> 10 * tenSeconds \<le> sampleNow - getLastDrainedTimestamp twoTenantStats ''B'' ''WEBHOOK''"
    using T h4 h6 by blast
  then have b: "deprioritised twoTenantStats sampleNow ''WEBHOOK'' tenSeconds ''B''"
    by (simp add: h5 tenSeconds_def)
  have "finalListWithIndicator (deprioritised twoTenantStats sampleNow ''WEBHOOK'' tenSeconds) [''B'', ''A'']
       = map (\<lambda>c. (c, False)) (filter (\<lambda>c. \<not> deprioritised twoTenantStats sampleNow ''WEBHOOK'' tenSeconds c) [''B'', ''A''])
         @ map (\<lambda>c. (c, True)) (filter (deprioritised twoTenantStats sampleNow ''WEBHOOK'' tenSeconds) [''B'', ''A''])"
    using T by blast
  then have c: "finalListWithIndicator (deprioritised twoTenantStats sampleNow ''WEBHOOK'' tenSeconds) [''B'', ''A'']
       = [(''A'', False), (''B'', True)]"
    using a b by simp
  have rA: "inRate twoTenantStats ''A'' ''WEBHOOK'' = Some (1 / 4)"
    and rB: "inRate twoTenantStats ''B'' ''WEBHOOK'' = Some (1 / 4)"
    by (simp_all add: inRate_def twoTenantStats_def)
  have budget: "0 < runningJobCount ?s0 \<and> 0 < runningTimeCounter ?s0"
    by (simp add: initialState_def tenSeconds_def boosted_ten_seconds second_def)
  have boosted: "truncF (float64 (float64 (13 / 10) * float64 (real_of_int tenSeconds))) = 13000000000"
    using boosted_ten_seconds by (simp add: boostedRouterTimeOut_def tenSeconds_def)
  have "inRateStep twoTenantStats ''WEBHOOK'' unitLatencies tenSeconds (''A'', False) ?s0
          = inRatePick twoTenantStats ''WEBHOOK'' unitLatencies
              (truncF (float64 (float64 (13 / 10) * float64 (real_of_int tenSeconds)))) ''A'' (1 / 4) ?s0"
    using T rA budget by blast
  then have d: "inRateStep twoTenantStats ''WEBHOOK'' unitLatencies tenSeconds (''A'', False) ?s0
          = inRatePick twoTenantStats ''WEBHOOK'' unitLatencies 13000000000 ''A'' (1 / 4) ?s0"
    by (simp only: boosted)
  have "inRateStep twoTenantStats ''WEBHOOK'' unitLatencies tenSeconds (''B'', True) ?s0
          = inRatePick twoTenantStats ''WEBHOOK'' unitLatencies tenSeconds ''B'' (1 / 4) ?s0"
    using T rB budget by blast
  then have e: "inRateStep twoTenantStats ''WEBHOOK'' unitLatencies tenSeconds (''B'', True) ?s0
          = inRatePick twoTenantStats ''WEBHOOK'' unitLatencies 10000000000 ''B'' (1 / 4) ?s0"
    by (simp add: tenSeconds_def)
  have f: "inRatePass twoTenantStats ''WEBHOOK'' unitLatencies tenSeconds [(''A'', False), (''B'', True)] ?s0
       = Some \<lparr> customerPickUpCount = [''A'' \<mapsto> 3, ''B'' \<mapsto> 2], runningJobCount = 95, runningTimeCounter = 8 \<rparr>"
    by (simp add: planner_defs twoTenantStats_def unitLatencies_def)
  show ?thesis using h2 h3 h4 h5 h6 a b c rA rB d e f by blast
qed

section \<open>Dataset index arithmetic: parsing and order\<close>

lemma splitOn_nonempty: "splitOn sep s \<noteq> []"
  by (induction s) (auto split: list.split)

lemma splitOn_append_sep:
  "splitOn sep (s @ sep # t) = splitOn sep s @ splitOn sep t"
proof (induction s)
  case Nil
  show ?case by simp
next
  case (Cons c cs)
  obtain w ws where w: "splitOn sep cs = w # ws"
    using splitOn_nonempty [of sep cs] by (cases "splitOn sep cs") auto
  show ?case using Cons w by simp
qed

lemma splitOn_no_sep: "sep \<notin> set w \<Longrightarrow> splitOn sep w = [w]"
  by (induction w) auto

lemma those_opt_append:
  "those_opt (xs @ ys) =
     (case those_opt xs of None \<Rightarrow> None
      | Some a \<Rightarrow> (case those_opt ys of None \<Rightarrow> None | Some b \<Rightarrow> Some (a @ b)))"
proof (induction xs)
  case Nil
  show ?case by (simp split: option.split)
next
  case (Cons x xs)
  then show ?case by (cases x) (simp_all split: option.split)
qed

lemma those_opt_map_Some: "those_opt (map Some xs) = Some xs"
  by (induction xs) simp_all

lemma parseNat_one: "parseNat ''1'' = Some 1"
  by (simp add: parseNat_def isDigit_def digitVal_def)

lemma parseIndex_append_one:
  assumes "parseIndex idx = Some levels"
  shows "parseIndex (idx @ ''_1'') = Some (levels @ [1])"
proof -
  have "levelsOf (idx @ ''_1'') = levelsOf idx @ [''1'']"
    by (simp add: levelsOf_def splitOn_append_sep)
  then show ?thesis
    using assms by (simp add: parseIndex_def those_opt_append parseNat_one)
qed

lemma digitChar_props:
  assumes "d < 10"
  shows "isDigit (digitChar d) \<and> digitVal (digitChar d) = d \<and> CHR ''_'' \<noteq> digitChar d"
proof -
  from assms have "d = 0 \<or> d = 1 \<or> d = 2 \<or> d = 3 \<or> d = 4 \<or> d = 5 \<or> d = 6 \<or> d = 7 \<or> d = 8 \<or> d = 9"
    by presburger
  then show ?thesis
    by (elim disjE) (simp_all add: isDigit_def digitVal_def digitChar_def)
qed

lemma showNat_digits: "list_all isDigit (showNat n) \<and> showNat n \<noteq> [] \<and> CHR ''_'' \<notin> set (showNat n)"
proof (induction n rule: showNat.induct)
  case (1 n)
  show ?case
  proof (cases "n < 10")
    case True
    then show ?thesis using digitChar_props [of n] by (simp add: showNat.simps [of n])
  next
    case False
    have "n mod 10 < 10" by simp
    from digitChar_props [OF this] 1 [OF False] show ?thesis
      using False by (simp add: showNat.simps [of n])
  qed
qed

lemma showNat_value: "foldl (\<lambda>acc c. 10 * acc + digitVal c) 0 (showNat n) = n"
proof (induction n rule: showNat.induct)
  case (1 n)
  show ?case
  proof (cases "n < 10")
    case True
    then show ?thesis using digitChar_props [of n] by (simp add: showNat.simps [of n])
  next
    case False
    have "n mod 10 < 10" by simp
    from digitChar_props [OF this] 1 [OF False] show ?thesis
      using False by (simp add: showNat.simps [of n])
  qed
qed

lemma parseNat_showNat: "parseNat (showNat n) = Some n"
  using showNat_digits [of n] showNat_value [of n] by (simp add: parseNat_def)

lemma splitOn_joinLevels:
  assumes "ws \<noteq> []" and "\<forall>w \<in> set ws. CHR ''_'' \<notin> set w"
  shows "splitOn (CHR ''_'') (joinLevels ws) = ws"
  using assms
proof (induction ws rule: joinLevels.induct)
  case 1
  then show ?case by simp
next
  case (2 w)
  then show ?case by (simp add: splitOn_no_sep)
next
  case (3 w v vs)
  have "splitOn (CHR ''_'') (w @ CHR ''_'' # joinLevels (v # vs)) = splitOn (CHR ''_'') w @ splitOn (CHR ''_'') (joinLevels (v # vs))"
    by (rule splitOn_append_sep)
  then show ?case using 3 by (simp add: splitOn_no_sep)
qed

lemma parseIndex_renderIndex:
  assumes "levels \<noteq> []"
  shows "parseIndex (renderIndex levels) = Some levels"
proof -
  have "levelsOf (renderIndex levels) = map showNat levels"
    unfolding levelsOf_def renderIndex_def
    using assms showNat_digits by (intro splitOn_joinLevels) auto
  moreover have "map parseNat (map showNat levels) = map Some levels"
    by (simp add: parseNat_showNat)
  ultimately show ?thesis by (simp only: parseIndex_def those_opt_map_Some)
qed

lemma idxLess_Nil2: "idxLess xs [] = False"
  by (cases xs) simp_all

lemma idxLess_append_left:
  "length a \<le> length p \<Longrightarrow> idxLess (p @ t) a = idxLess p a"
proof (induction p arbitrary: a)
  case Nil
  then show ?case by (simp add: idxLess_Nil2)
next
  case (Cons x xs)
  then show ?case by (cases a) simp_all
qed

lemma idxLess_same_prefix: "idxLess (p @ x) (p @ y) = idxLess x y"
  by (induction p) simp_all

lemma idxLess_incr_last: "idxLess (p @ [n]) (p @ [Suc n])"
  by (simp add: idxLess_same_prefix)

lemma idxLess_snoc_one: "idxLess b (b @ [1])"
  using idxLess_same_prefix [of b "[]" "[1]"] by simp

lemma idxLess_kept_levels:
  "idxLess kept (take (length kept) a) \<Longrightarrow> idxLess (kept @ t) a"
proof (induction kept arbitrary: a)
  case Nil
  then show ?case by simp
next
  case (Cons x xs)
  then show ?case by (cases a) auto
qed

lemma parseIndex_nonempty: "parseIndex idx = Some levels \<Longrightarrow> levels \<noteq> []"
proof -
  assume a: "parseIndex idx = Some levels"
  obtain w ws where "levelsOf idx = w # ws"
    using splitOn_nonempty [of "CHR ''_''" idx] by (cases "levelsOf idx") (auto simp: levelsOf_def)
  then show ?thesis using a
    by (cases "parseNat w") (auto simp: parseIndex_def split: option.splits)
qed


lemmas idx_defs = computeInsertIdx_def parseIndex_def levelsOf_def parseNat_def isDigit_def
  digitVal_def digitChar_def renderIndex_def isBaseIndex_def showNat.simps
  computeIdxForClusterMigration_def maxSecondLevel_def dataSet_def

text \<open>
  The rows of the test table of \<open>computeInsertIdx\<close> in the sources.
\<close>

lemma computeInsertIdx_test_table:
  "computeInsertIdx ''1'' ''2'' = Inr ''1_1''"
  "computeInsertIdx ''2'' ''3'' = Inr ''2_1''"
  "computeInsertIdx ''1_1'' ''2'' = Inr ''1_2''"
  "computeInsertIdx ''1'' ''2_1'' = Inr ''1_1''"
  "computeInsertIdx ''2_1'' ''3'' = Inr ''2_2''"
  "computeInsertIdx ''3'' ''4'' = Inr ''3_1''"
  "computeInsertIdx ''1_1'' ''2_1'' = Inr ''1_2''"
  "computeInsertIdx ''0_1'' ''1'' = Inr ''0_1_1''"
  "computeInsertIdx ''0_1'' ''0_2'' = Inr ''0_1_1''"
  "computeInsertIdx ''0_2'' ''1'' = Inr ''0_2_1''"
  "computeInsertIdx ''0_1_1'' ''0_2'' = Inr ''0_1_2''"
  "computeInsertIdx ''0_2_1'' ''1'' = Inr ''0_2_2''"
  "computeInsertIdx ''0_1_1'' ''0_2_1'' = Inr ''0_1_2''"
  "computeInsertIdx ''0_1'' ''0_2_1'' = Inr ''0_1_1''"
  "computeInsertIdx ''9'' ''10'' = Inr ''9_1''"
  by (simp_all add: idx_defs)

text \<open>
  C8, as stated, at \<open>1\<close> before \<open>1_1\<close>, two indices that follow each other in the list
  \<open>1, 1_1, 2\<close> left by an insertion between \<open>1\<close> and \<open>2\<close>: the first is the smaller one
  in the level-wise order, the result is \<open>1_1\<close>, the second index itself, and does not
  sort below it.
\<close>

theorem insert_index_meets_after:
  "parseIndex ''1'' = Some [1]
   \<and> parseIndex ''1_1'' = Some [1, 1]
   \<and> idxLess [1] [1, 1]
   \<and> computeInsertIdx ''1'' ''1_1'' = Inr ''1_1''
   \<and> \<not> idxLess [1, 1] [1, 1]"
  by (simp add: idx_defs)

text \<open>
  C8 (amended): \<open>computeInsertIdx\<close> maps the five listed pairs to the listed outputs,
  with no error; and for every pair of well-formed indices that differ, with \<open>before\<close>
  the smaller, at one of the levels that the result keeps from \<open>before\<close> (all its levels
  when \<open>_1\<close> is appended, all but the last when the last level is incremented), the result
  is a well-formed index that sorts strictly between the two in the level-wise numeric
  order.
\<close>

theorem computeInsertIdx_between:
  "computeInsertIdx ''1'' ''2'' = Inr ''1_1''
   \<and> computeInsertIdx ''1_1'' ''2'' = Inr ''1_2''
   \<and> computeInsertIdx ''1'' ''2_1'' = Inr ''1_1''
   \<and> computeInsertIdx ''0_1_1'' ''0_2'' = Inr ''0_1_2''
   \<and> computeInsertIdx ''9'' ''10'' = Inr ''9_1''
   \<and> (\<forall>beforeIndex afterIndex before after kept.
         parseIndex beforeIndex = Some before
         \<and> parseIndex afterIndex = Some after
         \<and> kept = (if isBaseIndex before then before else butlast before)
         \<and> idxLess kept (take (length kept) after)
       \<longrightarrow> (\<exists>res r. computeInsertIdx beforeIndex afterIndex = Inr res
                   \<and> parseIndex res = Some r
                   \<and> idxLess before r \<and> idxLess r after))"
proof -
  have general: "\<exists>res r. computeInsertIdx beforeIndex afterIndex = Inr res
                   \<and> parseIndex res = Some r \<and> idxLess before r \<and> idxLess r after"
    if pb: "parseIndex beforeIndex = Some before"
      and pa: "parseIndex afterIndex = Some after"
      and kept: "kept = (if isBaseIndex before then before else butlast before)"
      and less: "idxLess kept (take (length kept) after)"
    for beforeIndex afterIndex before after kept
  proof (cases "isBaseIndex before")
    case True
    then have k: "kept = before" using kept by simp
    have "computeInsertIdx beforeIndex afterIndex = Inr (beforeIndex @ ''_1'')"
      using pb pa True by (simp add: computeInsertIdx_def)
    moreover have "parseIndex (beforeIndex @ ''_1'') = Some (before @ [1])"
      using pb by (rule parseIndex_append_one)
    moreover have "idxLess before (before @ [1])" by (rule idxLess_snoc_one)
    moreover have "idxLess (before @ [1]) after"
      using less k by (simp add: idxLess_kept_levels)
    ultimately show ?thesis by blast
  next
    case False
    then have k: "kept = butlast before" using kept by simp
    let ?r = "butlast before @ [last before + 1]"
    have ne: "before \<noteq> []" using pb by (rule parseIndex_nonempty)
    then have split: "before = butlast before @ [last before]" by simp
    have "computeInsertIdx beforeIndex afterIndex = Inr (renderIndex ?r)"
      using pb pa False by (simp add: computeInsertIdx_def)
    moreover have "parseIndex (renderIndex ?r) = Some ?r"
      by (rule parseIndex_renderIndex) simp
    moreover have "idxLess before ?r"
      using idxLess_incr_last [of "butlast before" "last before"] split by simp
    moreover have "idxLess ?r after"
      using less k by (simp add: idxLess_kept_levels)
    ultimately show ?thesis by blast
  qed
  show ?thesis
    using general by (simp add: computeInsertIdx_test_table)
qed

theorem computeInsertIdx_between_witness:
  "parseIndex ''0_1_1'' = Some [0, 1, 1]
   \<and> parseIndex ''0_2'' = Some [0, 2]
   \<and> \<not> isBaseIndex [0, 1, 1]
   \<and> idxLess [0, 1] (take 2 [0, 2])
   \<and> computeInsertIdx ''0_1_1'' ''0_2'' = Inr ''0_1_2''
   \<and> parseIndex ''0_1_2'' = Some [0, 1, 2]
   \<and> idxLess [0, 1, 1] [0, 1, 2] \<and> idxLess [0, 1, 2] [0, 2]"
proof -
  have pb: "parseIndex ''0_1_1'' = Some [0, 1, 1]" and pa: "parseIndex ''0_2'' = Some [0, 2]"
    and pr: "parseIndex ''0_1_2'' = Some [0, 1, 2]"
    by (simp_all add: idx_defs)
  have nb: "\<not> isBaseIndex [0, 1, 1]" by (simp add: isBaseIndex_def)
  have k: "[0, 1] = (if isBaseIndex [0, 1, 1] then [0, 1, 1] else butlast [0, 1, 1 :: nat])"
    by (simp add: isBaseIndex_def)
  have less: "idxLess [0, 1] (take (length [0, 1 :: nat]) [0, 2])" by simp
  from computeInsertIdx_between pb pa k less
  obtain res r where "computeInsertIdx ''0_1_1'' ''0_2'' = Inr res" "parseIndex res = Some r"
    "idxLess [0, 1, 1] r" "idxLess r [0, 2]"
    by blast
  moreover have "computeInsertIdx ''0_1_1'' ''0_2'' = Inr ''0_1_2''"
    by (simp add: idx_defs)
  ultimately have "idxLess [0, 1, 1] [0, 1, 2] \<and> idxLess [0, 1, 2] [0, 2]"
    using pr by simp
  then show ?thesis using pb pa pr nb less \<open>computeInsertIdx ''0_1_1'' ''0_2'' = Inr ''0_1_2''\<close>
    by simp
qed


section \<open>Index of a dataset imported in front of the list\<close>

lemma foldl_max_Max: "foldl max (a::nat) xs = Max (insert a (set xs))"
proof (induction xs arbitrary: a)
  case Nil
  show ?case by simp
next
  case (Cons x xs)
  have "Max (insert (max a x) (set xs)) = Max (insert a (insert x (set xs)))"
  proof (cases "set xs = {}")
    case True
    then show ?thesis by (simp add: max.commute)
  next
    case False
    then show ?thesis by (simp add: max.assoc max.commute max.left_commute)
  qed
  then show ?case using Cons [of "max a x"] by simp
qed

lemma secondLevels_set:
  "set (concat (map (\<lambda>ds. case parseIndex (Index ds) of
                             Some (level0 # level1 # rest) \<Rightarrow> (if level0 = 0 then [level1] else [])
                           | _ \<Rightarrow> []) dList))
     = {n. \<exists>ds \<in> set dList. \<exists>rest. parseIndex (Index ds) = Some (0 # n # rest)}"
proof -
  have "\<exists>ds \<in> set dList. \<exists>rest. parseIndex (Index ds) = Some (0 # n # rest)"
    if "ds \<in> set dList" and "Some (0 # n # rest) = parseIndex (Index ds)" for ds n rest
    using that by (metis (no_types))
  then show ?thesis
    by (auto split: option.splits list.splits if_splits)
qed

lemma maxSecondLevel_Max:
  "maxSecondLevel dList
     = Max (insert 0 {n. \<exists>ds \<in> set dList. \<exists>rest. parseIndex (Index ds) = Some (0 # n # rest)})"
  unfolding maxSecondLevel_def foldl_max_Max secondLevels_set ..

text \<open>
  The rows of the two test tables of \<open>computeIdxForClusterMigration\<close> in the sources.
\<close>

lemma computeIdxForClusterMigration_test_table:
  "computeIdxForClusterMigration ''table_prefix'' [dataSet ''1''] (dataSet ''1'') = Inr ''0_1''"
  "computeIdxForClusterMigration ''table_prefix'' [dataSet ''0_1'', dataSet ''1'', dataSet ''2''] (dataSet ''1'')
     = Inr ''0_2''"
  "computeIdxForClusterMigration ''table_prefix'' [dataSet ''1_1''] (dataSet ''1_1'') = Inl NestedTarget"
  "computeIdxForClusterMigration ''table_prefix'' [dataSet ''1'', dataSet ''1_1''] (dataSet ''1_1'')
     = Inl NestedTarget"
  "computeIdxForClusterMigration ''table_prefix'' [] (dataSet ''1_1'') = Inl EmptyDatasetList"
  "computeIdxForClusterMigration ''table_prefix'' [] (dataSet ''1_1_1_1'') = Inl EmptyDatasetList"
  "computeIdxForClusterMigration ''table_prefix'' [] (dataSet ''1_1_!_1'') = Inl EmptyDatasetList"
  by (simp_all add: idx_defs)

text \<open>
  C9: \<open>computeIdxForClusterMigration\<close> returns an error exactly when the list is empty, or
  the target index has more than two levels, or one of its levels is not a number, or it
  is the index of a listed dataset and of the nested form \<open>a_b\<close>. Otherwise the result
  is \<open>0_1\<close> when the index of the first listed dataset has one level, and \<open>0_<k+1>\<close>
  when it has more, \<open>k\<close> being the largest second level among the listed datasets whose
  first level is 0 (and 0 when there is none).
\<close>

theorem cluster_migration_index:
  fixes dList :: "dataSetT list" and target :: dataSetT
  defines "failing \<equiv> dList = []
             \<or> 2 < length (levelsOf (Index target))
             \<or> parseIndex (Index target) = None
             \<or> (\<exists>ds \<in> set dList. Index ds = Index target \<and> length (levelsOf (Index ds)) = 2)"
  shows "((\<exists>err. computeIdxForClusterMigration tablePrefix dList target = Inl err) \<longleftrightarrow> failing)
       \<and> (\<not> failing \<and> length (levelsOf (Index (hd dList))) = 1
            \<longrightarrow> computeIdxForClusterMigration tablePrefix dList target = Inr ''0_1'')
       \<and> (\<not> failing \<and> length (levelsOf (Index (hd dList))) \<noteq> 1
            \<longrightarrow> computeIdxForClusterMigration tablePrefix dList target
                  = Inr (''0_'' @ showNat (Max (insert 0 {n. \<exists>ds \<in> set dList. \<exists>rest.
                                                   parseIndex (Index ds) = Some (0 # n # rest)}) + 1)))"
proof -
  have ex: "list_ex P dList \<longleftrightarrow> (\<exists>ds \<in> set dList. P ds)" for P
    by (simp add: list_ex_iff)
  show ?thesis
    unfolding failing_def computeIdxForClusterMigration_def maxSecondLevel_Max ex
    by auto
qed

theorem cluster_migration_index_witness:
  "[dataSet ''0_1'', dataSet ''1'', dataSet ''2''] \<noteq> []
   \<and> \<not> 2 < length (levelsOf (Index (dataSet ''1'')))
   \<and> parseIndex (Index (dataSet ''1'')) = Some [1]
   \<and> length (levelsOf (Index (hd [dataSet ''0_1'', dataSet ''1'', dataSet ''2'']))) = 2
   \<and> Max (insert 0 {n. \<exists>ds \<in> set [dataSet ''0_1'', dataSet ''1'', dataSet ''2'']. \<exists>rest.
                          parseIndex (Index ds) = Some (0 # n # rest)}) = 1
   \<and> computeIdxForClusterMigration ''table_prefix'' [dataSet ''0_1'', dataSet ''1'', dataSet ''2''] (dataSet ''1'')
       = Inr ''0_2''
   \<and> computeIdxForClusterMigration ''table_prefix'' [dataSet ''1'', dataSet ''1_1''] (dataSet ''1_1'')
       = Inl NestedTarget"
proof -
  let ?dList = "[dataSet ''0_1'', dataSet ''1'', dataSet ''2'']"
  have p: "parseIndex (Index (dataSet ''0_1'')) = Some [0, 1]"
    "parseIndex (Index (dataSet ''1'')) = Some [1]" "parseIndex (Index (dataSet ''2'')) = Some [2]"
    by (simp_all add: idx_defs)
  have l: "length (levelsOf (Index (dataSet ''0_1''))) = 2" "length (levelsOf (Index (dataSet ''1''))) = 1"
    "length (levelsOf (Index (dataSet ''2''))) = 1"
    by (simp_all add: idx_defs)
  have i: "Index (dataSet ''0_1'') \<noteq> Index (dataSet ''1'')"
    by (simp add: dataSet_def)
  have m: "{n. \<exists>ds \<in> set ?dList. \<exists>rest. parseIndex (Index ds) = Some (0 # n # rest)} = {1}"
    using p by auto
  have nf: "\<not> (?dList = []
             \<or> 2 < length (levelsOf (Index (dataSet ''1'')))
             \<or> parseIndex (Index (dataSet ''1'')) = None
             \<or> (\<exists>ds \<in> set ?dList. Index ds = Index (dataSet ''1'') \<and> length (levelsOf (Index ds)) = 2))"
    using p l i by auto
  have h: "length (levelsOf (Index (hd ?dList))) \<noteq> 1" using l by simp
  from cluster_migration_index [where dList = ?dList and target = "dataSet ''1''" and tablePrefix = "''table_prefix''"] nf h
  have "computeIdxForClusterMigration ''table_prefix'' ?dList (dataSet ''1'')
          = Inr (''0_'' @ showNat (Max (insert 0 {n. \<exists>ds \<in> set ?dList. \<exists>rest.
                                          parseIndex (Index ds) = Some (0 # n # rest)}) + 1))"
    by blast
  then have "computeIdxForClusterMigration ''table_prefix'' ?dList (dataSet ''1'')
          = Inr (''0_'' @ showNat (Max (insert 0 {1}) + 1))"
    by (simp only: m)
  then have r: "computeIdxForClusterMigration ''table_prefix'' ?dList (dataSet ''1'') = Inr ''0_2''"
    by (simp add: showNat.simps digitChar_def)
  have f: "dataSet ''1_1'' \<in> set [dataSet ''1'', dataSet ''1_1'']
           \<and> length (levelsOf (Index (dataSet ''1_1''))) = 2"
    by (simp add: idx_defs)
  from cluster_migration_index [where dList = "[dataSet ''1'', dataSet ''1_1'']" and target = "dataSet ''1_1''"
         and tablePrefix = "''table_prefix''"] f
  obtain err where e: "computeIdxForClusterMigration ''table_prefix'' [dataSet ''1'', dataSet ''1_1''] (dataSet ''1_1'') = Inl err"
    by blast
  have e': "computeIdxForClusterMigration ''table_prefix'' [dataSet ''1'', dataSet ''1_1''] (dataSet ''1_1'') = Inl NestedTarget"
    by (simp add: idx_defs)
  have nonempty: "?dList \<noteq> []" by simp
  have two: "\<not> 2 < length (levelsOf (Index (dataSet ''1'')))" using l by simp
  have first: "length (levelsOf (Index (hd ?dList))) = 2" using l by simp
  have mx: "Max (insert 0 {n. \<exists>ds \<in> set ?dList. \<exists>rest. parseIndex (Index ds) = Some (0 # n # rest)}) = 1"
    by (simp only: m) simp
  show ?thesis using nonempty two p(2) first mx r e' by blast
qed

section \<open>Per-row retry of a failed bulk store\<close>

lemma Store_failed:
  assumes "Store store db head jobs = (Inl err, db', sent)"
  shows "db' = db"
  using assms by (auto simp: Store_def split: option.splits)

lemma Store_succeeded:
  assumes "Store store db head jobs = (Inr ok, db', sent)"
  shows "jobRows db' (JobTable head) = jobRows db (JobTable head) @ jobs"
  using assms by (auto simp: Store_def split: option.splits)

lemma storeEach_sent:
  "snd (snd (storeEach store table jobs (m, db, sent)))
     = sent @ map (\<lambda>job. InsertJob table (insertedRow job)) jobs"
  by (induction jobs arbitrary: m db sent) (simp_all split: option.split)

lemma storeEach_rows:
  "jobRows (fst (snd (storeEach store table jobs (m, db, sent)))) table
     = jobRows db table
       @ map insertedRow (filter (\<lambda>job. insertFails store table (insertedRow job) = None) jobs)"
  by (induction jobs arbitrary: m db sent) (simp_all split: option.split)

lemma storeEach_dom:
  "dom (fst (storeEach store table jobs (m, db, sent)))
     = dom m \<union> UUID ` {job \<in> set jobs. insertFails store table (insertedRow job) \<noteq> None}"
proof (induction jobs arbitrary: m db sent)
  case Nil
  show ?case by simp
next
  case (Cons job rest)
  let ?failed = "\<lambda>js. {j \<in> set js. insertFails store table (insertedRow j) \<noteq> None}"
  show ?case
  proof (cases "insertFails store table (insertedRow job)")
    case None
    then have "?failed (job # rest) = ?failed rest" by auto
    then show ?thesis using Cons None by simp
  next
    case (Some err)
    then have "?failed (job # rest) = insert job (?failed rest)" by auto
    then have "UUID ` ?failed (job # rest) = insert (UUID job) (UUID ` ?failed rest)"
      by (simp only: image_insert)
    moreover have "storeEach store table (job # rest) (m, db, sent)
                     = storeEach store table rest
                         (m(UUID job \<mapsto> rowMessage err), db, sent @ [InsertJob table (insertedRow job)])"
      using Some by simp
    then have "dom (fst (storeEach store table (job # rest) (m, db, sent)))
                 = dom (m(UUID job \<mapsto> rowMessage err)) \<union> UUID ` ?failed rest"
      by (simp only: Cons)
    then have "dom (fst (storeEach store table (job # rest) (m, db, sent)))
                     = insert (UUID job) (dom m) \<union> UUID ` ?failed rest"
      by (simp only: dom_fun_upd option.distinct if_False)
    ultimately show ?thesis by (simp only: Un_insert_left Un_insert_right)
  qed
qed

lemma storeEach_other_keys:
  "k \<notin> UUID ` set jobs \<Longrightarrow> fst (storeEach store table jobs (m, db, sent)) k = m k"
proof (induction jobs arbitrary: m db sent)
  case Nil
  show ?case by simp
next
  case (Cons job rest)
  then have k: "k \<noteq> UUID job" and rest: "k \<notin> UUID ` set rest" by auto
  show ?case
  proof (cases "insertFails store table (insertedRow job)")
    case None
    then show ?thesis using Cons.IH [OF rest] by simp
  next
    case (Some err)
    then show ?thesis using Cons.IH [OF rest] k by simp
  qed
qed

lemma storeEach_message:
  assumes "distinct (map UUID jobs)" and "job \<in> set jobs"
    and "insertFails store table (insertedRow job) = Some err"
  shows "fst (storeEach store table jobs (m, db, sent)) (UUID job) = Some (rowMessage err)"
  using assms
proof (induction jobs arbitrary: m db sent)
  case Nil
  then show ?case by simp
next
  case (Cons j rest)
  have d: "distinct (map UUID rest)" and fresh: "UUID j \<notin> UUID ` set rest"
    using Cons.prems(1) by auto
  show ?case
  proof (cases "job = j")
    case True
    then have "fst (storeEach store table (j # rest) (m, db, sent)) (UUID job)
                 = (m(UUID j \<mapsto> rowMessage err)) (UUID j)"
      using Cons.prems(3) storeEach_other_keys [OF fresh] by simp
    then show ?thesis by simp
  next
    case False
    then have "job \<in> set rest" using Cons.prems(2) by simp
    from Cons.IH [OF d this Cons.prems(3)] show ?thesis
      by (cases "insertFails store table (insertedRow j)") simp_all
  qed
qed

lemma UUID_insertedRow: "UUID (insertedRow job) = UUID job"
  by (simp add: insertedRow_def)

text \<open>
  C7: for every list of jobs. When the bulk store fails, the statements sent after it are
  one single-row insert for each job, in order, of the job with the NUL sequences
  stripped from its payload; with distinct UUIDs, a job whose row the store refuses with
  code \<open>22P02\<close> has the message \<open>Invalid JSON\<close> under its UUID. And whether the bulk
  store fails or not, the rows added to the jobs table of the head dataset are the jobs
  that were inserted, and their UUIDs together with the keys of the returned map are the
  UUIDs of the given jobs.
\<close>

theorem store_with_retry_each:
  assumes run: "StoreWithRetryEach store db head jobs = (errorMessagesMap, db', sent)"
  shows "(\<forall>bulkErr db0 sent0. Store store db head jobs = (Inl bulkErr, db0, sent0) \<longrightarrow>
            sent = sent0 @ map (\<lambda>job. InsertJob (JobTable head) (insertedRow job)) jobs
          \<and> (\<forall>job. EventPayload (insertedRow job) = stripNul (EventPayload job))
          \<and> (distinct (map UUID jobs) \<longrightarrow>
               (\<forall>job \<in> set jobs. \<forall>message.
                   insertFails store (JobTable head) (insertedRow job) = Some (PqError ''22P02'' message)
                   \<longrightarrow> errorMessagesMap (UUID job) = Some ''Invalid JSON'')))
       \<and> (\<exists>inserted. jobRows db' (JobTable head) = jobRows db (JobTable head) @ inserted
             \<and> dom errorMessagesMap \<union> UUID ` set inserted = UUID ` set jobs)"
proof -
  let ?table = "JobTable head"
  obtain res db0 sent0 where st: "Store store db head jobs = (res, db0, sent0)"
    by (cases "Store store db head jobs") auto
  show ?thesis
  proof (cases res)
    case (Inr ok)
    then have "errorMessagesMap = Map.empty" and "db' = db0"
      using run st by (simp_all add: StoreWithRetryEach_def)
    moreover have "jobRows db0 ?table = jobRows db ?table @ jobs"
      using st Inr by (auto intro: Store_succeeded)
    ultimately have "jobRows db' ?table = jobRows db ?table @ jobs
                     \<and> dom errorMessagesMap \<union> UUID ` set jobs = UUID ` set jobs"
      by simp
    then have "\<exists>inserted. jobRows db' ?table = jobRows db ?table @ inserted
             \<and> dom errorMessagesMap \<union> UUID ` set inserted = UUID ` set jobs"
      by blast
    then show ?thesis using st Inr by simp
  next
    case (Inl bulkErr)
    have db0: "db0 = db" using st Inl by (auto intro: Store_failed)
    have each: "storeEach store ?table jobs (Map.empty, db, sent0) = (errorMessagesMap, db', sent)"
      using run st Inl db0 by (simp add: StoreWithRetryEach_def)
    have s: "sent = sent0 @ map (\<lambda>job. InsertJob ?table (insertedRow job)) jobs"
      using storeEach_sent [of store ?table jobs Map.empty db sent0] each by simp
    have p: "\<forall>job. EventPayload (insertedRow job) = stripNul (EventPayload job)"
      by (simp add: insertedRow_def)
    have m: "errorMessagesMap (UUID job) = Some ''Invalid JSON''"
      if "distinct (map UUID jobs)" "job \<in> set jobs"
        "insertFails store ?table (insertedRow job) = Some (PqError ''22P02'' message)"
      for job message
      using storeEach_message [OF that, of Map.empty db sent0] each by simp
    let ?ok = "filter (\<lambda>job. insertFails store ?table (insertedRow job) = None) jobs"
    have rows: "jobRows db' ?table = jobRows db ?table @ map insertedRow ?ok"
      using storeEach_rows [of store ?table jobs Map.empty db sent0] each by simp
    have dom: "dom errorMessagesMap = UUID ` {job \<in> set jobs. insertFails store ?table (insertedRow job) \<noteq> None}"
      using storeEach_dom [of store ?table jobs Map.empty db sent0] each by simp
    have okset: "UUID ` set (map insertedRow ?ok)
            = UUID ` {job \<in> set jobs. insertFails store ?table (insertedRow job) = None}"
      by (auto simp: UUID_insertedRow image_iff)
    have "{job \<in> set jobs. insertFails store ?table (insertedRow job) \<noteq> None}
            \<union> {job \<in> set jobs. insertFails store ?table (insertedRow job) = None} = set jobs"
      by auto
    then have "UUID ` {job \<in> set jobs. insertFails store ?table (insertedRow job) \<noteq> None}
            \<union> UUID ` {job \<in> set jobs. insertFails store ?table (insertedRow job) = None} = UUID ` set jobs"
      by (simp only: image_Un [symmetric])
    then have "dom errorMessagesMap \<union> UUID ` set (map insertedRow ?ok) = UUID ` set jobs"
      by (simp only: dom okset)
    then have u: "\<exists>inserted. jobRows db' ?table = jobRows db ?table @ inserted
             \<and> dom errorMessagesMap \<union> UUID ` set inserted = UUID ` set jobs"
      using rows by blast
    show ?thesis using st Inl db0 s p m u by auto
  qed
qed


theorem store_with_retry_each_witness:
  "Store bulkRefused emptyDatabase d2 [goodJob, badJsonJob]
     = (Inl (OtherError ''failed to prepare''), emptyDatabase, [Begin])
   \<and> distinct (map UUID [goodJob, badJsonJob])
   \<and> insertFails bulkRefused (JobTable d2) (insertedRow badJsonJob) = Some (PqError ''22P02'' [])
   \<and> EventPayload (insertedRow goodJob) = ''[1]''
   \<and> fst (StoreWithRetryEach bulkRefused emptyDatabase d2 [goodJob, badJsonJob])
       = [UUID badJsonJob \<mapsto> ''Invalid JSON'']
   \<and> jobRows (fst (snd (StoreWithRetryEach bulkRefused emptyDatabase d2 [goodJob, badJsonJob]))) ''tt_jobs_2''
       = [insertedRow goodJob]
   \<and> snd (snd (StoreWithRetryEach bulkRefused emptyDatabase d2 [goodJob, badJsonJob]))
       = [Begin, InsertJob ''tt_jobs_2'' (insertedRow goodJob), InsertJob ''tt_jobs_2'' (insertedRow badJsonJob)]
   \<and> dom [UUID badJsonJob \<mapsto> ''Invalid JSON''] \<union> UUID ` set [insertedRow goodJob]
       = UUID ` set [goodJob, badJsonJob]"
proof -
  let ?jobs = "[goodJob, badJsonJob]"
  obtain m db' sent where run: "StoreWithRetryEach bulkRefused emptyDatabase d2 ?jobs = (m, db', sent)"
    by (cases "StoreWithRetryEach bulkRefused emptyDatabase d2 ?jobs") auto
  have st: "Store bulkRefused emptyDatabase d2 ?jobs
              = (Inl (OtherError ''failed to prepare''), emptyDatabase, [Begin])"
    by (simp add: Store_def bulkRefused_def)
  have d: "distinct (map UUID ?jobs)" by (simp add: goodJob_def badJsonJob_def)
  have bad: "insertFails bulkRefused (JobTable d2) (insertedRow badJsonJob) = Some (PqError ''22P02'' [])"
    by (simp add: bulkRefused_def insertedRow_def)
  have good: "insertFails bulkRefused (JobTable d2) (insertedRow goodJob) = None"
    by (simp add: bulkRefused_def insertedRow_def goodJob_def badJsonJob_def)
  have payload: "EventPayload (insertedRow goodJob) = ''[1]''"
    by (simp add: insertedRow_def goodJob_def nulSequence_def)
  have table: "JobTable d2 = ''tt_jobs_2''" by (simp add: d2_def)
  note T = store_with_retry_each [OF run]
  have sent: "sent = [Begin] @ map (\<lambda>job. InsertJob (JobTable d2) (insertedRow job)) ?jobs"
    using T st by blast
  have msg: "m (UUID badJsonJob) = Some ''Invalid JSON''"
    using T st d bad by (metis list.set_intros(1,2))
  have whole: "(m, db', sent) = storeEach bulkRefused (JobTable d2) ?jobs (Map.empty, emptyDatabase, [Begin])"
    using run st by (simp add: StoreWithRetryEach_def)
  have m: "m = [UUID badJsonJob \<mapsto> ''Invalid JSON'']"
    using whole good bad by simp
  have rows: "jobRows db' ''tt_jobs_2'' = [insertedRow goodJob]"
    using whole good bad by (simp add: table emptyDatabase_def)
  have u: "dom [UUID badJsonJob \<mapsto> ''Invalid JSON''] \<union> UUID ` set [insertedRow goodJob]
             = UUID ` set ?jobs"
    by (auto simp: UUID_insertedRow)
  show ?thesis using st d bad payload m rows sent u msg by (simp add: run table)
qed

section \<open>Status updates across datasets\<close>

lemma statusPartitions_of_tests:
  "statusPartitions dsRangeList [succeededStatus, abortedStatus]
     = [(''tt_job_status_1'', [succeededStatus]), (''tt_job_status_2'', [abortedStatus])]"
  by (simp add: statusPartitions_def targetRange_def dsRangeList_def succeededStatus_def
        abortedStatus_def d1_def d2_def)

lemma targetRange_two:
  assumes "maxJobID r1 < maxJobID r2"
  shows "targetRange [r1, r2] jobID = Some r1 \<longleftrightarrow> minJobID r1 \<le> jobID \<and> jobID \<le> maxJobID r1"
    and "targetRange [r1, r2] jobID = Some r2
           \<longleftrightarrow> maxJobID r1 < jobID \<and> minJobID r2 \<le> jobID \<and> jobID \<le> maxJobID r2"
proof -
  have ne: "r1 \<noteq> r2" using assms by auto
  show "targetRange [r1, r2] jobID = Some r1 \<longleftrightarrow> minJobID r1 \<le> jobID \<and> jobID \<le> maxJobID r1"
    using ne by (auto simp: targetRange_def)
  show "targetRange [r1, r2] jobID = Some r2
           \<longleftrightarrow> maxJobID r1 < jobID \<and> minJobID r2 \<le> jobID \<and> jobID \<le> maxJobID r2"
    using ne by (auto simp: targetRange_def)
qed

lemma statusPartitions_two:
  assumes "maxJobID r1 < maxJobID r2"
    and "rows1 = filter (\<lambda>status. minJobID r1 \<le> JobID status \<and> JobID status \<le> maxJobID r1) statusList"
    and "rows2 = filter (\<lambda>status. maxJobID r1 < JobID status \<and> minJobID r2 \<le> JobID status
                                      \<and> JobID status \<le> maxJobID r2) statusList"
    and "rows1 \<noteq> []" and "rows2 \<noteq> []"
  shows "statusPartitions [r1, r2] statusList
           = [(JobStatusTable (ds r1), rows1), (JobStatusTable (ds r2), rows2)]"
proof -
  have "filter (\<lambda>status. targetRange [r1, r2] (JobID status) = Some r1) statusList = rows1"
    unfolding assms(2) by (rule filter_cong) (simp_all add: targetRange_two [OF assms(1)])
  moreover have "filter (\<lambda>status. targetRange [r1, r2] (JobID status) = Some r2) statusList = rows2"
    unfolding assms(3) by (rule filter_cong) (simp_all add: targetRange_two [OF assms(1)])
  ultimately show ?thesis
    using assms(4,5) by (simp add: statusPartitions_def)
qed

text \<open>
  C6: for a batch of statuses whose job ids lie in two datasets, the ranges being in the
  order of the job ids, on a store that lets the transaction begin and takes the bulk
  copy of the first dataset. When the second bulk copy and the commit go through, the
  statements sent are one \<open>Begin\<close>, one bulk copy per dataset, of the statuses of its
  range into its status table, and one \<open>Commit\<close>, and each status table has these
  statuses appended. When the second bulk copy fails, the statements sent end in a
  rollback, the tables are those from before the call, rows of the first dataset
  included, and the error of the failed copy is returned.
\<close>

theorem update_job_status_two_datasets:
  fixes r1 r2 :: dataSetRangeT and statusList :: "JobStatusT list"
  defines "rows1 \<equiv> filter (\<lambda>status. minJobID r1 \<le> JobID status \<and> JobID status \<le> maxJobID r1) statusList"
    and "rows2 \<equiv> filter (\<lambda>status. maxJobID r1 < JobID status \<and> minJobID r2 \<le> JobID status
                                      \<and> JobID status \<le> maxJobID r2) statusList"
    and "table1 \<equiv> JobStatusTable (ds r1)"
    and "table2 \<equiv> JobStatusTable (ds r2)"
  assumes sorted: "maxJobID r1 < maxJobID r2"
    and spans: "rows1 \<noteq> []" "rows2 \<noteq> []"
    and begins: "beginFails store = None"
    and first: "copyFails store table1 = None"
  shows "(copyFails store table2 = None \<and> commitFails store = None \<longrightarrow>
            UpdateJobStatus store db [r1, r2] statusList customValFilters parameterFilters
              = (Inr (),
                 db\<lparr>statusRows := (statusRows db)
                       (table1 := statusRows db table1 @ rows1,
                        table2 := ((statusRows db)(table1 := statusRows db table1 @ rows1)) table2 @ rows2)\<rparr>,
                 [Begin, CopyStatuses table1 rows1, CopyStatuses table2 rows2, Commit]))
       \<and> (\<forall>err. copyFails store table2 = Some err \<longrightarrow>
            UpdateJobStatus store db [r1, r2] statusList customValFilters parameterFilters
              = (Inl err, db, [Begin, CopyStatuses table1 rows1, CopyStatuses table2 rows2, Rollback]))"
proof -
  have parts: "statusPartitions [r1, r2] statusList = [(table1, rows1), (table2, rows2)]"
    unfolding table1_def table2_def
    using sorted rows1_def rows2_def spans by (intro statusPartitions_two) simp_all
  show ?thesis
    using parts begins first by (simp add: UpdateJobStatus_def)
qed

theorem update_job_status_two_datasets_witness:
  "dsRangeList = [\<lparr> minJobID = 1, maxJobID = 10, startTime = 0, endTime = 0, ds = d1 \<rparr>,
                  \<lparr> minJobID = 10, maxJobID = 20, startTime = 0, endTime = 0, ds = d2 \<rparr>]
   \<and> JobID succeededStatus = 1 \<and> JobID abortedStatus = 11
   \<and> beginFails secondCopyRefused = None
   \<and> copyFails secondCopyRefused ''tt_job_status_1'' = None
   \<and> copyFails secondCopyRefused ''tt_job_status_2'' = Some (OtherError ''exec failed'')
   \<and> UpdateJobStatus secondCopyRefused emptyDatabase dsRangeList [succeededStatus, abortedStatus] [''GW''] []
       = (Inl (OtherError ''exec failed''), emptyDatabase,
          [Begin, CopyStatuses ''tt_job_status_1'' [succeededStatus],
           CopyStatuses ''tt_job_status_2'' [abortedStatus], Rollback])"
proof -
  let ?r1 = "\<lparr> minJobID = 1, maxJobID = 10, startTime = 0, endTime = 0, ds = d1 \<rparr>"
  let ?r2 = "\<lparr> minJobID = 10, maxJobID = 20, startTime = 0, endTime = 0, ds = d2 \<rparr>"
  let ?statusList = "[succeededStatus, abortedStatus]"
  have ids: "JobID succeededStatus = 1" "JobID abortedStatus = 11"
    by (simp_all add: succeededStatus_def abortedStatus_def)
  have b: "beginFails secondCopyRefused = None"
    and c1: "copyFails secondCopyRefused ''tt_job_status_1'' = None"
    and c2: "copyFails secondCopyRefused ''tt_job_status_2'' = Some (OtherError ''exec failed'')"
    by (simp_all add: secondCopyRefused_def)
  have t: "JobStatusTable (ds ?r1) = ''tt_job_status_1''" "JobStatusTable (ds ?r2) = ''tt_job_status_2''"
    by (simp_all add: d1_def d2_def)
  have rows1: "filter (\<lambda>status. minJobID ?r1 \<le> JobID status \<and> JobID status \<le> maxJobID ?r1) ?statusList
                 = [succeededStatus]"
    and rows2: "filter (\<lambda>status. maxJobID ?r1 < JobID status \<and> minJobID ?r2 \<le> JobID status
                                      \<and> JobID status \<le> maxJobID ?r2) ?statusList = [abortedStatus]"
    by (simp_all add: ids)
  have sorted: "maxJobID ?r1 < maxJobID ?r2" by simp
  have c1': "copyFails secondCopyRefused (JobStatusTable (ds ?r1)) = None"
    using c1 t by simp
  have ne: "filter (\<lambda>status. minJobID ?r1 \<le> JobID status \<and> JobID status \<le> maxJobID ?r1) ?statusList \<noteq> []"
    "filter (\<lambda>status. maxJobID ?r1 < JobID status \<and> minJobID ?r2 \<le> JobID status
                                      \<and> JobID status \<le> maxJobID ?r2) ?statusList \<noteq> []"
    by (simp_all only: rows1 rows2) simp_all
  note T = update_job_status_two_datasets
    [where ?r1.0 = ?r1 and ?r2.0 = ?r2 and statusList = ?statusList and store = secondCopyRefused
       and db = emptyDatabase and customValFilters = "[''GW'']" and parameterFilters = "[]",
     OF sorted ne b c1']
  have "UpdateJobStatus secondCopyRefused emptyDatabase [?r1, ?r2] ?statusList [''GW''] []
       = (Inl (OtherError ''exec failed''), emptyDatabase,
          [Begin, CopyStatuses ''tt_job_status_1'' [succeededStatus],
           CopyStatuses ''tt_job_status_2'' [abortedStatus], Rollback])"
    using T c2 unfolding rows1 rows2 t by blast
  then show ?thesis using ids b c1 c2 by (simp add: dsRangeList_def)
qed

end
